theory Spec2Isabelle
  imports Complex_Main
begin

section \<open>Python values, strings and dictionaries\<close>

text \<open>
  The two modules \<^verbatim>\<open>ml/prepare_training_data.py\<close> and \<^verbatim>\<open>ml/train_model.py\<close> are
  embedded function by function.  Python strings are modelled as lists of 8-bit characters;
  all text of the repository is ASCII, and \<open>lower\<close> acts on the letters A-Z as
  \<open>str.lower\<close> does on ASCII text.
\<close>

datatype pyval = PInt int | PBool bool | PStr string | NaN

datatype error =
    KeyError string
  | AttributeError string
  | ValueError string
  | FileNotFoundError string
  | NotFittedError string

text \<open>A \<open>dict\<close> read with \<open>.get(key, default)\<close>.\<close>

type_synonym email = "string \<rightharpoonup> string"

definition dict_get :: "('k \<rightharpoonup> 'v) \<Rightarrow> 'k \<Rightarrow> 'v \<Rightarrow> 'v" where
  "dict_get d k dflt = (case d k of None \<Rightarrow> dflt | Some v \<Rightarrow> v)"

text \<open>
  A \<open>dict\<close> that is built by assignments and later read in insertion order
  (\<open>features[k] = v\<close>): an association list; assigning to a present key keeps its place.
\<close>

fun dict_set :: "('k \<times> 'v) list \<Rightarrow> 'k \<Rightarrow> 'v \<Rightarrow> ('k \<times> 'v) list" where
  "dict_set [] k v = [(k, v)]"
| "dict_set ((k', v') # d) k v =
     (if k' = k then (k, v) # d else (k', v') # dict_set d k v)"

definition lower_char :: "char \<Rightarrow> char" where
  "lower_char c =
     (case map_of (zip ''ABCDEFGHIJKLMNOPQRSTUVWXYZ'' ''abcdefghijklmnopqrstuvwxyz'') c of
        None \<Rightarrow> c | Some l \<Rightarrow> l)"

definition lower :: "string \<Rightarrow> string" where
  "lower s = map lower_char s"

text \<open>\<open>t.startswith(k)\<close> and the substring test \<open>k in t\<close>.\<close>

fun startswith :: "string \<Rightarrow> string \<Rightarrow> bool" where
  "startswith t [] = True"
| "startswith [] (k # ks) = False"
| "startswith (c # cs) (k # ks) = (c = k \<and> startswith cs ks)"

fun py_in :: "string \<Rightarrow> string \<Rightarrow> bool" where
  "py_in k [] = (k = [])"
| "py_in k (c # cs) = (startswith (c # cs) k \<or> py_in k cs)"

section \<open>Regular expressions (\<open>re.search\<close>)\<close>

text \<open>
  The three patterns of \<open>extract_features\<close> use only literals, character classes,
  alternation, \<open>?\<close>, \<open>*\<close> and \<open>+\<close>.  For such patterns
  \<open>bool(re.search(p, text))\<close> holds exactly when some substring of the text belongs to the
  language of the pattern.  \<open>re_search\<close> tries every start position from the left and
  follows the pattern by derivatives; \<open>lang\<close> is the language of a pattern.
\<close>

datatype rexp =
    Zero
  | One
  | Atom "char \<Rightarrow> bool"
  | Seq rexp rexp
  | Alt rexp rexp
  | Star rexp

inductive_set star :: "string set \<Rightarrow> string set" for L :: "string set" where
  star_Nil: "[] \<in> star L"
| star_App: "u \<in> L \<Longrightarrow> v \<in> star L \<Longrightarrow> u @ v \<in> star L"

fun lang :: "rexp \<Rightarrow> string set" where
  "lang Zero = {}"
| "lang One = {[]}"
| "lang (Atom P) = {[c] | c. P c}"
| "lang (Seq r s) = {u @ v | u v. u \<in> lang r \<and> v \<in> lang s}"
| "lang (Alt r s) = lang r \<union> lang s"
| "lang (Star r) = star (lang r)"

fun nullable :: "rexp \<Rightarrow> bool" where
  "nullable Zero = False"
| "nullable One = True"
| "nullable (Atom P) = False"
| "nullable (Seq r s) = (nullable r \<and> nullable s)"
| "nullable (Alt r s) = (nullable r \<or> nullable s)"
| "nullable (Star r) = True"

fun deriv :: "char \<Rightarrow> rexp \<Rightarrow> rexp" where
  "deriv c Zero = Zero"
| "deriv c One = Zero"
| "deriv c (Atom P) = (if P c then One else Zero)"
| "deriv c (Seq r s) =
     (if nullable r then Alt (Seq (deriv c r) s) (deriv c s) else Seq (deriv c r) s)"
| "deriv c (Alt r s) = Alt (deriv c r) (deriv c s)"
| "deriv c (Star r) = Seq (deriv c r) (Star r)"

text \<open>\<open>match_prefix r t\<close>: some prefix of \<open>t\<close> matches \<open>r\<close> (\<open>re.match\<close>).\<close>

fun match_prefix :: "rexp \<Rightarrow> string \<Rightarrow> bool" where
  "match_prefix r [] = nullable r"
| "match_prefix r (c # cs) = (nullable r \<or> match_prefix (deriv c r) cs)"

fun re_search :: "rexp \<Rightarrow> string \<Rightarrow> bool" where
  "re_search r [] = nullable r"
| "re_search r (c # cs) = (match_prefix r (c # cs) \<or> re_search r cs)"

definition chr :: "char \<Rightarrow> rexp" where
  "chr c = Atom (\<lambda>x. x = c)"

definition lit :: "string \<Rightarrow> rexp" where
  "lit s = foldr (\<lambda>c r. Seq (chr c) r) s One"

definition Plus :: "rexp \<Rightarrow> rexp" where
  "Plus r = Seq r (Star r)"

definition Opt :: "rexp \<Rightarrow> rexp" where
  "Opt r = Alt r One"

text \<open>
  The classes \<open>\d\<close>, \<open>\s\<close> and \<open>\w\<close> on ASCII text: digits; the characters for which
  \<open>str.isspace\<close> holds (codes 9 to 13 and 28 to 32); letters, digits and the underscore.
\<close>

definition is_digit :: "char \<Rightarrow> bool" where
  "is_digit c = (48 \<le> (of_char c :: nat) \<and> (of_char c :: nat) \<le> 57)"

definition is_space :: "char \<Rightarrow> bool" where
  "is_space c = ((9 \<le> (of_char c :: nat) \<and> (of_char c :: nat) \<le> 13) \<or>
                 (28 \<le> (of_char c :: nat) \<and> (of_char c :: nat) \<le> 32))"

definition is_word :: "char \<Rightarrow> bool" where
  "is_word c = (is_digit c \<or>
     (97 \<le> (of_char c :: nat) \<and> (of_char c :: nat) \<le> 122) \<or>
     (65 \<le> (of_char c :: nat) \<and> (of_char c :: nat) \<le> 90) \<or> c = CHR ''_'')"

text \<open>\<^verbatim>\<open>\d+[\s,]*(?:mt|tons?|dwt|teu|cbm)\<close>\<close>

definition tonnage_re :: rexp where
  "tonnage_re =
     Seq (Plus (Atom is_digit))
       (Seq (Star (Atom (\<lambda>c. is_space c \<or> c = CHR '','')))
          (Alt (lit ''mt'') (Alt (Seq (lit ''ton'') (Opt (chr CHR ''s'')))
            (Alt (lit ''dwt'') (Alt (lit ''teu'') (lit ''cbm''))))))"

text \<open>\<^verbatim>\<open>m/?v\s+[\w\s]+\<close>\<close>

definition vessel_name_re :: rexp where
  "vessel_name_re =
     Seq (chr CHR ''m'') (Seq (Opt (chr CHR ''/'')) (Seq (chr CHR ''v'')
       (Seq (Plus (Atom is_space)) (Plus (Atom (\<lambda>c. is_word c \<or> is_space c))))))"

text \<open>\<^verbatim>\<open>(singapore|rotterdam|shanghai|houston|hamburg|santos|yokohama)\<close>\<close>

definition port_names_re :: rexp where
  "port_names_re =
     Alt (lit ''singapore'') (Alt (lit ''rotterdam'') (Alt (lit ''shanghai'')
       (Alt (lit ''houston'') (Alt (lit ''hamburg'') (Alt (lit ''santos'') (lit ''yokohama''))))))"

section \<open>\<open>prepare_training_data.extract_features\<close>\<close>

definition cargo_keywords :: "string list" where
  "cargo_keywords =
     [''cargo'', ''shipment'', ''loading'', ''discharge'', ''commodity'', ''mt'', ''metric tons'',
      ''teu'', ''container'', ''bulk'', ''breakbulk'', ''project cargo'', ''reefer'',
      ''grain'', ''coal'', ''iron ore'', ''steel'', ''chemical'', ''oil'', ''lng'', ''cement'',
      ''timber'', ''logs'', ''rice'', ''wheat'', ''sugar'', ''fertilizer'', ''bauxite'',
      ''alumina'', ''copper'', ''nickel'', ''scrap'', ''metal'', ''frozen'', ''food'',
      ''electronics'', ''automotive'', ''parts'', ''machinery'', ''equipment'',
      ''need vessel'', ''looking for vessel'', ''require vessel'', ''booking'',
      ''freight rate'', ''laycan'', ''load port'', ''discharge port'', ''destination'']"

definition vessel_keywords :: "string list" where
  "vessel_keywords =
     [''vessel'', ''ship'', ''mv'', ''m/v'', ''dwt'', ''draft'', ''loa'', ''beam'', ''open'',
      ''available'', ''position'', ''charter'', ''hire'', ''tc'', ''time charter'',
      ''voyage charter'', ''spot'', ''panamax'', ''capesize'', ''handymax'', ''handysize'',
      ''supramax'', ''ultramax'', ''vlcc'', ''suezmax'', ''aframax'', ''tanker'',
      ''bulk carrier'', ''container vessel'', ''general cargo'', ''multipurpose'',
      ''mpp'', ''heavy lift'', ''chemical tanker'', ''product tanker'', ''lng carrier'',
      ''lpg carrier'', ''car carrier'', ''pctc'', ''roro'', ''reefer vessel'',
      ''crane'', ''gear'', ''geared'', ''gearless'', ''holds'', ''hatches'',
      ''ice class'', ''double hull'', ''certificates'', ''class'', ''flag'']"

text \<open>The search text: \<^verbatim>\<open>f"{email.get('subject', '')} {email.get('body', '')}".lower()\<close>.\<close>

definition search_text :: "email \<Rightarrow> string" where
  "search_text email =
     lower (dict_get email ''subject'' '''' @ '' '' @ dict_get email ''body'' '''')"

text \<open>The keys of the dictionary that \<open>extract_features\<close> fills, in the order of the assignments.\<close>

definition feature_names :: "string list" where
  "feature_names =
     [''cargo_keyword_count'', ''vessel_keyword_count'', ''has_tonnage'', ''has_vessel_name'',
      ''has_port_names'', ''subject_length'', ''body_length'', ''is_shipping_domain'',
      ''is_cargo_domain'']"

definition extract_features :: "email \<Rightarrow> (string \<times> pyval) list" where
  "extract_features email =
     (let features = [];
          text = search_text email;
          features = dict_set features ''cargo_keyword_count''
            (PInt (sum_list [1. keyword \<leftarrow> cargo_keywords, py_in keyword text]));
          features = dict_set features ''vessel_keyword_count''
            (PInt (sum_list [1. keyword \<leftarrow> vessel_keywords, py_in keyword text]));
          features = dict_set features ''has_tonnage'' (PBool (re_search tonnage_re text));
          features = dict_set features ''has_vessel_name''
            (PBool (re_search vessel_name_re text));
          features = dict_set features ''has_port_names''
            (PBool (re_search port_names_re text));
          features = dict_set features ''subject_length''
            (PInt (int (length (dict_get email ''subject'' ''''))));
          features = dict_set features ''body_length''
            (PInt (int (length (dict_get email ''body'' ''''))));
          sender = dict_get email ''sender'' '''';
          features = dict_set features ''is_shipping_domain''
            (PBool (list_ex (\<lambda>domain. py_in domain sender)
               [''shipping'', ''maritime'', ''vessel'', ''fleet'', ''tanker'', ''bulk'']));
          features = dict_set features ''is_cargo_domain''
            (PBool (list_ex (\<lambda>domain. py_in domain sender)
               [''cargo'', ''logistics'', ''export'', ''import'', ''trade'', ''commodity'']))
      in features)"

section \<open>\<open>prepare_training_data.prepare_dataset\<close>\<close>

text \<open>
  A pandas table: the column names in order, and one row of cells per record, aligned with
  the columns.  \<open>DataFrame X\<close> is \<^verbatim>\<open>pd.DataFrame(X)\<close> for a list of dictionaries: the
  columns are the keys in the order of their first appearance, and a record without a key
  gets \<open>NaN\<close> in that column.
\<close>

record dataframe =
  columns :: "string list"
  rows :: "pyval list list"

definition DataFrame :: "(string \<times> pyval) list list \<Rightarrow> dataframe" where
  "DataFrame X =
     (let cols = fold (\<lambda>d acc. acc @ [k \<leftarrow> map fst d. k \<notin> set acc]) X []
      in \<lparr>columns = cols,
          rows = map (\<lambda>d. map (\<lambda>c. case map_of d c of None \<Rightarrow> NaN | Some v \<Rightarrow> v) cols) X\<rparr>)"

text \<open>\<^verbatim>\<open>df[c] = vs\<close>: a new column is appended on the right, a present one is overwritten.\<close>

definition set_column :: "dataframe \<Rightarrow> string \<Rightarrow> pyval list \<Rightarrow> dataframe" where
  "set_column df c vs =
     (if c \<in> set (columns df)
      then df\<lparr>rows := map (\<lambda>(r, v). map (\<lambda>(k, x). if k = c then v else x) (zip (columns df) r))
                          (zip (rows df) vs)\<rparr>
      else \<lparr>columns = columns df @ [c], rows = map (\<lambda>(r, v). r @ [v]) (zip (rows df) vs)\<rparr>)"

text \<open>\<^verbatim>\<open>df[c].values\<close> and \<^verbatim>\<open>df[cols].values\<close>; a missing column raises \<open>KeyError\<close>.\<close>

definition cell :: "dataframe \<Rightarrow> pyval list \<Rightarrow> string \<Rightarrow> pyval" where
  "cell df r c = (case map_of (zip (columns df) r) c of None \<Rightarrow> NaN | Some v \<Rightarrow> v)"

definition get_column :: "dataframe \<Rightarrow> string \<Rightarrow> error + pyval list" where
  "get_column df c =
     (if c \<in> set (columns df) then Inr (map (\<lambda>r. cell df r c) (rows df)) else Inl (KeyError c))"

definition get_columns :: "dataframe \<Rightarrow> string list \<Rightarrow> error + pyval list list" where
  "get_columns df cols =
     (case [c \<leftarrow> cols. c \<notin> set (columns df)] of
        [] \<Rightarrow> Inr (map (\<lambda>r. map (cell df r) cols) (rows df))
      | c # _ \<Rightarrow> Inl (KeyError c))"

text \<open>
  The loop of \<open>prepare_dataset\<close> over the module's list \<open>training_data\<close>, which is a
  parameter here; \<^verbatim>\<open>email['type']\<close> raises \<open>KeyError\<close> on a record without a label.
\<close>

fun prepare_loop ::
  "email list \<Rightarrow> (string \<times> pyval) list list \<Rightarrow> pyval list
     \<Rightarrow> error + ((string \<times> pyval) list list \<times> pyval list)" where
  "prepare_loop [] X y = Inr (X, y)"
| "prepare_loop (email # rest) X y =
     (let features = extract_features email
      in case email ''type'' of
           None \<Rightarrow> Inl (KeyError ''type'')
         | Some t \<Rightarrow> prepare_loop rest (X @ [features]) (y @ [PStr t]))"

definition prepare_dataset :: "email list \<Rightarrow> error + dataframe" where
  "prepare_dataset training_data =
     (case prepare_loop training_data [] [] of
        Inl e \<Rightarrow> Inl e
      | Inr (X, y) \<Rightarrow>
          (let df_features = DataFrame X;
               df_features = set_column df_features ''label'' y
           in Inr df_features))"

section \<open>\<open>train_model.train_email_classifier\<close>\<close>

text \<open>
  The scikit-learn calls are parameters of the model: what the random, seeded split returns,
  what statistics a \<open>StandardScaler\<close> learns from a matrix and how it transforms one, what
  fitting an estimator of a given name (with the preset of hyperparameters that the source
  gives it) returns or raises, what a fitted estimator predicts, and whether the 5-fold
  cross-validation raises.  \<open>'sp\<close> is the type of fitted scaler statistics, \<open>'mp\<close> the
  type of fitted estimator parameters.
\<close>

record ('sp, 'mp) sklearn =
  train_test_split ::
    "pyval list list \<Rightarrow> pyval list
       \<Rightarrow> error + (pyval list list \<times> pyval list list \<times> pyval list \<times> pyval list)"
  scaler_fit :: "pyval list list \<Rightarrow> 'sp"
  scaler_transform :: "'sp \<Rightarrow> pyval list list \<Rightarrow> pyval list list"
  estimator_fit :: "string \<Rightarrow> pyval list list \<Rightarrow> pyval list \<Rightarrow> error + 'mp"
  estimator_predict :: "'mp \<Rightarrow> pyval list list \<Rightarrow> pyval list"
  cross_val_score :: "string \<Rightarrow> pyval list list \<Rightarrow> pyval list \<Rightarrow> error + unit"

text \<open>
  Scalers and estimators are objects that \<open>fit\<close> mutates in place, and that variables
  refer to: a heap from object identities to object states, with the files written so far.
\<close>

datatype ('sp, 'mp) obj =
    StandardScaler "'sp option"
  | Estimator string "'mp option"

text \<open>The metadata document, with its keys \<open>model_type\<close> to \<open>needs_scaling\<close>.\<close>

record metadata =
  md_model_type :: string
  md_accuracy :: rat
  md_feature_columns :: "string list"
  md_classes :: "string list"
  md_needs_scaling :: bool

datatype ('sp, 'mp) disk_file =
    Csv dataframe
  | Pickle "('sp, 'mp) obj"
  | Json metadata

record ('sp, 'mp) world =
  heap :: "nat \<rightharpoonup> ('sp, 'mp) obj"
  next_addr :: nat
  files :: "string \<rightharpoonup> ('sp, 'mp) disk_file"

definition new :: "('sp, 'mp) obj \<Rightarrow> ('sp, 'mp) world \<Rightarrow> nat \<times> ('sp, 'mp) world" where
  "new ob w =
     (next_addr w, w\<lparr>heap := (heap w)(next_addr w \<mapsto> ob), next_addr := Suc (next_addr w)\<rparr>)"

definition fit_transform ::
  "('sp, 'mp) sklearn \<Rightarrow> nat \<Rightarrow> pyval list list \<Rightarrow> ('sp, 'mp) world
     \<Rightarrow> error + (pyval list list \<times> ('sp, 'mp) world)" where
  "fit_transform sk scaler X w =
     (case heap w scaler of
        Some (StandardScaler _) \<Rightarrow>
          (let p = scaler_fit sk X
           in Inr (scaler_transform sk p X,
                   w\<lparr>heap := (heap w)(scaler \<mapsto> StandardScaler (Some p))\<rparr>))
      | _ \<Rightarrow> Inl (AttributeError ''fit_transform''))"

definition transform ::
  "('sp, 'mp) sklearn \<Rightarrow> nat \<Rightarrow> pyval list list \<Rightarrow> ('sp, 'mp) world
     \<Rightarrow> error + pyval list list" where
  "transform sk scaler X w =
     (case heap w scaler of
        Some (StandardScaler (Some p)) \<Rightarrow> Inr (scaler_transform sk p X)
      | Some (StandardScaler None) \<Rightarrow> Inl (NotFittedError ''StandardScaler'')
      | _ \<Rightarrow> Inl (AttributeError ''transform''))"

definition fit ::
  "('sp, 'mp) sklearn \<Rightarrow> nat \<Rightarrow> pyval list list \<Rightarrow> pyval list \<Rightarrow> ('sp, 'mp) world
     \<Rightarrow> error + ('sp, 'mp) world" where
  "fit sk model X y w =
     (case heap w model of
        Some (Estimator name _) \<Rightarrow>
          (case estimator_fit sk name X y of
             Inl e \<Rightarrow> Inl e
           | Inr p \<Rightarrow> Inr (w\<lparr>heap := (heap w)(model \<mapsto> Estimator name (Some p))\<rparr>))
      | _ \<Rightarrow> Inl (AttributeError ''fit''))"

definition predict ::
  "('sp, 'mp) sklearn \<Rightarrow> nat \<Rightarrow> pyval list list \<Rightarrow> ('sp, 'mp) world \<Rightarrow> error + pyval list" where
  "predict sk model X w =
     (case heap w model of
        Some (Estimator name (Some p)) \<Rightarrow> Inr (estimator_predict sk p X)
      | Some (Estimator name None) \<Rightarrow> Inl (NotFittedError name)
      | _ \<Rightarrow> Inl (AttributeError ''predict''))"

text \<open>\<^verbatim>\<open>joblib.dump(obj, path)\<close> writes the present state of the object.\<close>

definition dump :: "nat \<Rightarrow> string \<Rightarrow> ('sp, 'mp) world \<Rightarrow> error + ('sp, 'mp) world" where
  "dump a path w =
     (case heap w a of
        Some ob \<Rightarrow> Inr (w\<lparr>files := (files w)(path \<mapsto> Pickle ob)\<rparr>)
      | None \<Rightarrow> Inl (AttributeError ''dump''))"

text \<open>
  \<open>accuracy_score\<close>: the fraction of positions where the prediction is the label.  All
  candidates are scored on the same test labels, so comparing these fractions is comparing
  the floating-point quotients that the source compares.
\<close>

definition accuracy_score :: "pyval list \<Rightarrow> pyval list \<Rightarrow> rat" where
  "accuracy_score y_true y_pred =
     of_nat (length [p \<leftarrow> zip y_true y_pred. fst p = snd p]) / of_nat (length y_true)"

text \<open>The keys of the dictionary \<open>models\<close>, in the order in which the source writes them.\<close>

definition model_names :: "string list" where
  "model_names = [''RandomForest'', ''GradientBoosting'', ''LogisticRegression'', ''SVM'']"

fun new_models ::
  "string list \<Rightarrow> ('sp, 'mp) world \<Rightarrow> (string \<times> nat) list \<times> ('sp, 'mp) world" where
  "new_models [] w = ([], w)"
| "new_models (name # names) w =
     (let (a, w) = new (Estimator name None) w;
          (ms, w) = new_models names w
      in ((name, a) # ms, w))"

text \<open>Lines 16 to 58: reading the table, the split, the scaler and the candidate models.\<close>

record ('sp, 'mp) prepared =
  p_feature_columns :: "string list"
  p_X :: "pyval list list"
  p_y :: "pyval list"
  p_X_train :: "pyval list list"
  p_X_test :: "pyval list list"
  p_y_train :: "pyval list"
  p_y_test :: "pyval list"
  p_X_train_scaled :: "pyval list list"
  p_X_test_scaled :: "pyval list list"
  p_scaler :: nat
  p_models :: "(string \<times> nat) list"
  p_world :: "('sp, 'mp) world"

definition read_csv :: "string \<Rightarrow> ('sp, 'mp) world \<Rightarrow> error + dataframe" where
  "read_csv path w =
     (case files w path of Some (Csv df) \<Rightarrow> Inr df | _ \<Rightarrow> Inl (FileNotFoundError path))"

definition load_and_split ::
  "('sp, 'mp) sklearn \<Rightarrow> ('sp, 'mp) world \<Rightarrow> error + ('sp, 'mp) prepared" where
  "load_and_split sk w =
     (case read_csv ''ml/training_data.csv'' w of Inl e \<Rightarrow> Inl e | Inr df \<Rightarrow>
      let feature_columns = [col \<leftarrow> columns df. col \<noteq> ''label''] in
      case get_columns df feature_columns of Inl e \<Rightarrow> Inl e | Inr X \<Rightarrow>
      case get_column df ''label'' of Inl e \<Rightarrow> Inl e | Inr y \<Rightarrow>
      case train_test_split sk X y of Inl e \<Rightarrow> Inl e
      | Inr (X_train, X_test, y_train, y_test) \<Rightarrow>
      let (scaler, w) = new (StandardScaler None) w in
      case fit_transform sk scaler X_train w of Inl e \<Rightarrow> Inl e
      | Inr (X_train_scaled, w) \<Rightarrow>
      case transform sk scaler X_test w of Inl e \<Rightarrow> Inl e | Inr X_test_scaled \<Rightarrow>
      let (models, w) = new_models model_names w in
      Inr \<lparr>p_feature_columns = feature_columns, p_X = X, p_y = y,
           p_X_train = X_train, p_X_test = X_test, p_y_train = y_train, p_y_test = y_test,
           p_X_train_scaled = X_train_scaled, p_X_test_scaled = X_test_scaled,
           p_scaler = scaler, p_models = models, p_world = w\<rparr>)"

text \<open>
  Lines 67 to 92: one candidate.  The views that the candidate is trained and tested on,
  the fit, the prediction, the accuracy and the cross-validation; an exception of any of
  them leaves the loop and the function.
\<close>

definition train_view :: "string \<Rightarrow> ('sp, 'mp) prepared \<Rightarrow> pyval list list" where
  "train_view name d =
     (if name \<in> set [''LogisticRegression'', ''SVM''] then p_X_train_scaled d else p_X_train d)"

definition test_view :: "string \<Rightarrow> ('sp, 'mp) prepared \<Rightarrow> pyval list list" where
  "test_view name d =
     (if name \<in> set [''LogisticRegression'', ''SVM''] then p_X_test_scaled d else p_X_test d)"

definition evaluate_candidate ::
  "('sp, 'mp) sklearn \<Rightarrow> ('sp, 'mp) prepared \<Rightarrow> string \<Rightarrow> nat \<Rightarrow> ('sp, 'mp) world
     \<Rightarrow> error + (rat \<times> ('sp, 'mp) world)" where
  "evaluate_candidate sk d name model w =
     (case fit sk model (train_view name d) (p_y_train d) w of Inl e \<Rightarrow> Inl e | Inr w \<Rightarrow>
      case predict sk model (test_view name d) w of Inl e \<Rightarrow> Inl e | Inr y_pred \<Rightarrow>
      let accuracy = accuracy_score (p_y_test d) y_pred in
      case cross_val_score sk name (train_view name d) (p_y_train d) of Inl e \<Rightarrow> Inl e
      | Inr cv_scores \<Rightarrow> Inr (accuracy, w))"

text \<open>The loop, with the variables \<open>best_model\<close>, \<open>best_score\<close> and \<open>best_model_name\<close>.\<close>

fun model_loop ::
  "('sp, 'mp) sklearn \<Rightarrow> ('sp, 'mp) prepared \<Rightarrow> (string \<times> nat) list
     \<Rightarrow> nat option \<times> rat \<times> string option \<times> ('sp, 'mp) world
     \<Rightarrow> error + (nat option \<times> rat \<times> string option \<times> ('sp, 'mp) world)" where
  "model_loop sk d [] st = Inr st"
| "model_loop sk d ((name, model) # rest) (best_model, best_score, best_model_name, w) =
     (case evaluate_candidate sk d name model w of
        Inl e \<Rightarrow> Inl e
      | Inr (accuracy, w) \<Rightarrow>
          if accuracy > best_score
          then model_loop sk d rest (Some model, accuracy, Some name, w)
          else model_loop sk d rest (best_model, best_score, best_model_name, w))"

text \<open>
  Lines 97 to 118: the refit on all data and the files.  With \<open>best_model_name\<close> still
  \<open>None\<close> the test of line 98 is false and \<^verbatim>\<open>best_model.fit\<close> of line 104 raises
  \<open>AttributeError\<close>.  The outcome is the world after line 118 with the values of the
  function's variables: those of lines 16 to 58 in \<open>out_locals\<close>, where \<open>p_world\<close> is
  the world as it was when the comparison began.  The predictions on two sample emails
  that follow (lines 123 to 154) only print; they change no object and no file and are
  left out.
\<close>

record ('sp, 'mp) outcome =
  out_world :: "('sp, 'mp) world"
  out_locals :: "('sp, 'mp) prepared"
  out_best_model :: nat
  out_best_score :: rat
  out_best_model_name :: string
  out_metadata :: metadata

definition finalize ::
  "('sp, 'mp) sklearn \<Rightarrow> ('sp, 'mp) prepared
     \<Rightarrow> nat option \<times> rat \<times> string option \<times> ('sp, 'mp) world
     \<Rightarrow> error + ('sp, 'mp) outcome" where
  "finalize sk d st =
     (case st of (best_model, best_score, best_model_name, w) \<Rightarrow>
      case (best_model, best_model_name) of
        (Some model, Some name) \<Rightarrow>
          (case
             (if name \<in> set [''LogisticRegression'', ''SVM'']
              then (case fit_transform sk (p_scaler d) (p_X d) w of Inl e \<Rightarrow> Inl e
                    | Inr (X_all_scaled, w) \<Rightarrow>
                    case fit sk model X_all_scaled (p_y d) w of Inl e \<Rightarrow> Inl e | Inr w \<Rightarrow>
                    dump (p_scaler d) ''ml/scaler.pkl'' w)
              else fit sk model (p_X d) (p_y d) w)
           of Inl e \<Rightarrow> Inl e | Inr w \<Rightarrow>
           case dump model ''ml/email_classifier.pkl'' w of Inl e \<Rightarrow> Inl e | Inr w \<Rightarrow>
           let metadata = \<lparr>md_model_type = name, md_accuracy = best_score,
                 md_feature_columns = p_feature_columns d,
                 md_classes = [''CARGO'', ''VESSEL''],
                 md_needs_scaling = (name \<in> set [''LogisticRegression'', ''SVM''])\<rparr>;
               w = w\<lparr>files := (files w)(''ml/model_metadata.json'' \<mapsto> Json metadata)\<rparr>
           in Inr \<lparr>out_world = w, out_locals = d, out_best_model = model,
                   out_best_score = best_score, out_best_model_name = name,
                   out_metadata = metadata\<rparr>)
      | _ \<Rightarrow> Inl (AttributeError ''fit''))"

definition train_email_classifier ::
  "('sp, 'mp) sklearn \<Rightarrow> ('sp, 'mp) world \<Rightarrow> error + ('sp, 'mp) outcome" where
  "train_email_classifier sk w =
     (case load_and_split sk w of Inl e \<Rightarrow> Inl e | Inr d \<Rightarrow>
      let best_model = None; best_score = 0; best_model_name = None in
      case model_loop sk d (p_models d) (best_model, best_score, best_model_name, p_world d) of
        Inl e \<Rightarrow> Inl e
      | Inr st \<Rightarrow> finalize sk d st)"

text \<open>
  The script of \<open>train_model\<close> (lines 156 to 163), started in a fresh process with the
  files \<open>fs\<close>: the dataset is prepared, written as CSV, and read back by the training.
  The table that \<open>read_csv\<close> returns is the table that \<open>to_csv\<close> wrote, with its columns
  in the same order.
\<close>

definition fresh :: "(string \<rightharpoonup> ('sp, 'mp) disk_file) \<Rightarrow> ('sp, 'mp) world" where
  "fresh fs = \<lparr>heap = Map.empty, next_addr = 0, files = fs\<rparr>"


text \<open>
  A small instance of the library interface, for running the pipeline on concrete tables:
  the first row is the test partition, the scaler remembers the matrix it was fitted on and
  transforms nothing, and an estimator either fails to fit or predicts one fixed label,
  as \<open>behaviour\<close> says for its name.
\<close>

definition toy_sklearn ::
  "(string \<Rightarrow> error + pyval) \<Rightarrow> (pyval list list, pyval) sklearn" where
  "toy_sklearn behaviour =
     \<lparr>train_test_split = (\<lambda>X y.
          if length X < 2 then Inl (ValueError ''n_samples'')
          else Inr (tl X, [hd X], tl y, [hd y])),
      scaler_fit = (\<lambda>X. X),
      scaler_transform = (\<lambda>p X. X),
      estimator_fit = (\<lambda>name X y. behaviour name),
      estimator_predict = (\<lambda>p X. map (\<lambda>_. p) X),
      cross_val_score = (\<lambda>name X y. Inr ())\<rparr>"

text \<open>
  A table of three rows, the world in which it is the training file, a corpus of two
  labelled emails, and four behaviours of the candidates on them.  With the split of
  \<open>toy_sklearn\<close> the test partition is the first row, whose label is \<open>CARGO\<close>.
\<close>

definition toy_table :: dataframe where
  "toy_table =
     \<lparr>columns = [''f'', ''label''],
      rows = [[PInt 1, PStr ''CARGO''], [PInt 2, PStr ''VESSEL''], [PInt 3, PStr ''CARGO'']]\<rparr>"

definition toy_world :: "(pyval list list, pyval) world" where
  "toy_world = fresh [''ml/training_data.csv'' \<mapsto> Csv toy_table]"



definition all_wrong :: "string \<Rightarrow> error + pyval" where
  "all_wrong name = Inr (PStr ''VESSEL'')"

definition only_logistic_right :: "string \<Rightarrow> error + pyval" where
  "only_logistic_right name =
     (if name = ''LogisticRegression'' then Inr (PStr ''CARGO'') else Inr (PStr ''VESSEL''))"

definition forest_fails :: "string \<Rightarrow> error + pyval" where
  "forest_fails name =
     (if name = ''RandomForest'' then Inl (ValueError ''fit'') else Inr (PStr ''CARGO''))"

section \<open>Notions used in the statements\<close>

text \<open>
  The table of a labelled corpus: the feature columns and the label column, one row per
  record in the order of the corpus.  The lemmas on \<open>prepare_dataset\<close> show that this is
  the table it builds.
\<close>

definition table_of :: "email list \<Rightarrow> dataframe" where
  "table_of td =
     \<lparr>columns = (if td = [] then [] else feature_names) @ [''label''],
      rows = map (\<lambda>e. map snd (extract_features e) @ [PStr (the (e ''type''))]) td\<rparr>"

text \<open>
  The held-out accuracy of the candidate \<open>name\<close>: what the loop computes for it when its fit
  succeeds.
\<close>

definition candidate_accuracy :: "('sp, 'mp) sklearn \<Rightarrow> ('sp, 'mp) prepared \<Rightarrow> string \<Rightarrow> rat" where
  "candidate_accuracy sk d name =
     (case estimator_fit sk name (train_view name d) (p_y_train d) of
        Inl e \<Rightarrow> 0
      | Inr p \<Rightarrow> accuracy_score (p_y_test d) (estimator_predict sk p (test_view name d)))"

text \<open>
  Two relations on worlds for the frame of the loop: \<open>fitted_only w w'\<close> says that the files
  are the same and that every object is unchanged or is an estimator that has been fitted;
  \<open>models_ok ms w\<close> says that every entry of the dictionary \<open>models\<close> refers to an estimator
  of its name.
\<close>

definition fitted_only :: "('sp, 'mp) world \<Rightarrow> ('sp, 'mp) world \<Rightarrow> bool" where
  "fitted_only w w' \<longleftrightarrow>
     files w' = files w \<and> next_addr w' = next_addr w \<and>
     (\<forall>a. heap w' a = heap w a \<or>
          (\<exists>name p p'. heap w a = Some (Estimator name p) \<and>
                        heap w' a = Some (Estimator name (Some p'))))"

definition models_ok :: "(string \<times> nat) list \<Rightarrow> ('sp, 'mp) world \<Rightarrow> bool" where
  "models_ok ms w \<longleftrightarrow> (\<forall>(name, a) \<in> set ms. \<exists>p. heap w a = Some (Estimator name p))"

text \<open>
  The exception that the loop body raises for the candidate \<open>name\<close>, if any: that of its
  fit, or else that of its cross-validation.
\<close>

definition candidate_error ::
  "('sp, 'mp) sklearn \<Rightarrow> ('sp, 'mp) prepared \<Rightarrow> string \<Rightarrow> error option" where
  "candidate_error sk d name =
     (case estimator_fit sk name (train_view name d) (p_y_train d) of
        Inl e \<Rightarrow> Some e
      | Inr p \<Rightarrow>
          (case cross_val_score sk name (train_view name d) (p_y_train d) of
             Inl e \<Rightarrow> Some e
           | Inr cv_scores \<Rightarrow> None))"

section \<open>Substring test and pattern search meet their specifications\<close>

lemma startswith_iff: "startswith t k \<longleftrightarrow> (\<exists>ss. t = k @ ss)"
  by (induction t k rule: startswith.induct) auto

lemma py_in_iff: "py_in k t \<longleftrightarrow> (\<exists>ps ss. t = ps @ k @ ss)"
proof (induction t)
  case Nil
  then show ?case by auto
next
  case (Cons c cs)
  show ?case
  proof
    assume "py_in k (c # cs)"
    then consider "startswith (c # cs) k" | "py_in k cs" by auto
    then show "\<exists>ps ss. c # cs = ps @ k @ ss"
    proof cases
      case 1
      then obtain ss where "c # cs = k @ ss" by (auto simp: startswith_iff)
      then have "c # cs = [] @ k @ ss" by simp
      then show ?thesis by blast
    next
      case 2
      then obtain ps ss where "cs = ps @ k @ ss" using Cons.IH by auto
      then have "c # cs = (c # ps) @ k @ ss" by simp
      then show ?thesis by blast
    qed
  next
    assume "\<exists>ps ss. c # cs = ps @ k @ ss"
    then obtain ps ss where eq: "c # cs = ps @ k @ ss" by blast
    show "py_in k (c # cs)"
    proof (cases ps)
      case Nil
      with eq have "startswith (c # cs) k" by (auto simp: startswith_iff)
      then show ?thesis by simp
    next
      case (Cons p ps')
      with eq have "cs = ps' @ k @ ss" by simp
      then have "py_in k cs" using Cons.IH by blast
      then show ?thesis by simp
    qed
  qed
qed

lemma nullable_iff: "nullable r \<longleftrightarrow> [] \<in> lang r"
  by (induction r) (auto intro: star.star_Nil)

lemma star_Cons_split:
  assumes "w \<in> star L" and "w = c # x"
  shows "\<exists>u v. x = u @ v \<and> c # u \<in> L \<and> v \<in> star L"
  using assms
proof (induction arbitrary: x rule: star.induct)
  case star_Nil
  then show ?case by simp
next
  case (star_App u v)
  show ?case
  proof (cases u)
    case Nil
    with star_App show ?thesis by simp
  next
    case (Cons a u')
    with star_App.prems have "a = c" and "x = u' @ v" by simp_all
    with star_App.hyps Cons show ?thesis by blast
  qed
qed

lemma lang_deriv: "w \<in> lang (deriv c r) \<longleftrightarrow> c # w \<in> lang r"
proof (induction r arbitrary: w)
  case (Seq r s)
  show ?case
  proof
    assume "w \<in> lang (deriv c (Seq r s))"
    then consider u v where "w = u @ v" "u \<in> lang (deriv c r)" "v \<in> lang s"
      | "nullable r" "w \<in> lang (deriv c s)"
      by (auto split: if_splits)
    then show "c # w \<in> lang (Seq r s)"
    proof cases
      case 1
      then have "c # u \<in> lang r" using Seq.IH(1) by simp
      with 1 have "c # w = (c # u) @ v \<and> c # u \<in> lang r \<and> v \<in> lang s" by simp
      then show ?thesis unfolding lang.simps by blast
    next
      case 2
      then have "[] \<in> lang r" "c # w \<in> lang s" using Seq.IH(2) by (simp_all add: nullable_iff)
      then have "c # w = [] @ (c # w) \<and> [] \<in> lang r \<and> c # w \<in> lang s" by simp
      then show ?thesis unfolding lang.simps by blast
    qed
  next
    assume "c # w \<in> lang (Seq r s)"
    then obtain u v where uv: "c # w = u @ v" "u \<in> lang r" "v \<in> lang s" by auto
    show "w \<in> lang (deriv c (Seq r s))"
    proof (cases u)
      case Nil
      with uv have "nullable r" "w \<in> lang (deriv c s)" using Seq.IH(2) by (simp_all add: nullable_iff)
      then show ?thesis by simp
    next
      case (Cons a u')
      with uv have "a = c" "w = u' @ v" by simp_all
      moreover have "u' \<in> lang (deriv c r)" using Seq.IH(1) uv(2) Cons \<open>a = c\<close> by simp
      ultimately have "w \<in> lang (Seq (deriv c r) s)" using uv(3) by auto
      then show ?thesis by simp
    qed
  qed
next
  case (Star r)
  show ?case
  proof
    assume "w \<in> lang (deriv c (Star r))"
    then obtain u v where "w = u @ v" "u \<in> lang (deriv c r)" "v \<in> star (lang r)" by auto
    then have "c # w = (c # u) @ v" "c # u \<in> lang r" using Star.IH by simp_all
    with \<open>v \<in> star (lang r)\<close> show "c # w \<in> lang (Star r)"
      by (metis lang.simps(6) star.star_App)
  next
    assume "c # w \<in> lang (Star r)"
    then have "c # w \<in> star (lang r)" by simp
    from star_Cons_split[OF this refl]
    obtain u v where "w = u @ v" "c # u \<in> lang r" "v \<in> star (lang r)" by blast
    then have "w = u @ v \<and> u \<in> lang (deriv c r) \<and> v \<in> lang (Star r)" using Star.IH by simp
    then show "w \<in> lang (deriv c (Star r))" by auto
  qed
qed auto

lemma match_prefix_iff: "match_prefix r t \<longleftrightarrow> (\<exists>m ss. t = m @ ss \<and> m \<in> lang r)"
proof (induction t arbitrary: r)
  case Nil
  then show ?case by (simp add: nullable_iff)
next
  case (Cons c cs)
  show ?case
  proof
    assume "match_prefix r (c # cs)"
    then consider "nullable r" | "match_prefix (deriv c r) cs" by auto
    then show "\<exists>m ss. c # cs = m @ ss \<and> m \<in> lang r"
    proof cases
      case 1
      then have "c # cs = [] @ (c # cs) \<and> [] \<in> lang r" by (simp add: nullable_iff)
      then show ?thesis by blast
    next
      case 2
      then obtain m ss where "cs = m @ ss" "m \<in> lang (deriv c r)" using Cons.IH by blast
      then have "c # cs = (c # m) @ ss \<and> c # m \<in> lang r" by (simp add: lang_deriv)
      then show ?thesis by blast
    qed
  next
    assume "\<exists>m ss. c # cs = m @ ss \<and> m \<in> lang r"
    then obtain m ss where eq: "c # cs = m @ ss" "m \<in> lang r" by blast
    show "match_prefix r (c # cs)"
    proof (cases m)
      case Nil
      with eq have "nullable r" by (simp add: nullable_iff)
      then show ?thesis by simp
    next
      case (Cons a m')
      with eq have "cs = m' @ ss" "m' \<in> lang (deriv c r)" by (simp_all add: lang_deriv)
      then have "match_prefix (deriv c r) cs" using Cons.IH by blast
      then show ?thesis by simp
    qed
  qed
qed

lemma re_search_iff: "re_search r t \<longleftrightarrow> (\<exists>ps m ss. t = ps @ m @ ss \<and> m \<in> lang r)"
proof (induction t)
  case Nil
  then show ?case by (simp add: nullable_iff)
next
  case (Cons c cs)
  show ?case
  proof
    assume "re_search r (c # cs)"
    then consider "match_prefix r (c # cs)" | "re_search r cs" by auto
    then show "\<exists>ps m ss. c # cs = ps @ m @ ss \<and> m \<in> lang r"
    proof cases
      case 1
      then obtain m ss where "c # cs = [] @ m @ ss \<and> m \<in> lang r"
        by (auto simp: match_prefix_iff)
      then show ?thesis by blast
    next
      case 2
      then obtain ps m ss where "cs = ps @ m @ ss" "m \<in> lang r" using Cons.IH by blast
      then have "c # cs = (c # ps) @ m @ ss \<and> m \<in> lang r" by simp
      then show ?thesis by blast
    qed
  next
    assume "\<exists>ps m ss. c # cs = ps @ m @ ss \<and> m \<in> lang r"
    then obtain ps m ss where eq: "c # cs = ps @ m @ ss" "m \<in> lang r" by blast
    show "re_search r (c # cs)"
    proof (cases ps)
      case Nil
      with eq have "match_prefix r (c # cs)" by (auto simp: match_prefix_iff)
      then show ?thesis by simp
    next
      case (Cons p ps')
      with eq have "cs = ps' @ m @ ss \<and> m \<in> lang r" by simp
      then have "re_search r cs" using Cons.IH by blast
      then show ?thesis by simp
    qed
  qed
qed

section \<open>The feature extractor\<close>

lemma extract_features_eq:
  "extract_features email =
     [(''cargo_keyword_count'', PInt (sum_list [1. keyword \<leftarrow> cargo_keywords, py_in keyword (search_text email)])),
      (''vessel_keyword_count'', PInt (sum_list [1. keyword \<leftarrow> vessel_keywords, py_in keyword (search_text email)])),
      (''has_tonnage'', PBool (re_search tonnage_re (search_text email))),
      (''has_vessel_name'', PBool (re_search vessel_name_re (search_text email))),
      (''has_port_names'', PBool (re_search port_names_re (search_text email))),
      (''subject_length'', PInt (int (length (dict_get email ''subject'' '''')))),
      (''body_length'', PInt (int (length (dict_get email ''body'' '''')))),
      (''is_shipping_domain'', PBool (list_ex (\<lambda>domain. py_in domain (dict_get email ''sender'' ''''))
               [''shipping'', ''maritime'', ''vessel'', ''fleet'', ''tanker'', ''bulk''])),
      (''is_cargo_domain'', PBool (list_ex (\<lambda>domain. py_in domain (dict_get email ''sender'' ''''))
               [''cargo'', ''logistics'', ''export'', ''import'', ''trade'', ''commodity'']))]"
  unfolding extract_features_def Let_def by simp

lemma keys_extract_features: "map fst (extract_features email) = feature_names"
  by (simp add: extract_features_eq feature_names_def)

lemma count_comprehension:
  "sum_list [1. k \<leftarrow> ks, P k] = int (length (filter P ks))"
  by (induction ks) auto

lemma count_distinct:
  "distinct ks \<Longrightarrow> sum_list [1. k \<leftarrow> ks, P k] = int (card {k \<in> set ks. P k})"
proof -
  assume d: "distinct ks"
  then have "distinct (filter P ks)" by simp
  then have "card (set (filter P ks)) = length (filter P ks)" by (rule distinct_card)
  moreover have "set (filter P ks) = {k \<in> set ks. P k}" by auto
  ultimately have "length (filter P ks) = card {k \<in> set ks. P k}" by metis
  then show ?thesis by (simp only: count_comprehension)
qed

lemma distinct_cargo_keywords: "distinct cargo_keywords"
  by (simp add: cargo_keywords_def)

lemma distinct_vessel_keywords: "distinct vessel_keywords"
  by (simp add: vessel_keywords_def)

lemma length_cargo_keywords: "length cargo_keywords = 49"
  by (simp add: cargo_keywords_def)

lemma length_vessel_keywords: "length vessel_keywords = 52"
  by (simp add: vessel_keywords_def)

lemma search_text_cargo_twice:
  "search_text [''subject'' \<mapsto> ''Cargo cargo''] = ''cargo cargo ''"
  by (simp add: search_text_def dict_get_def lower_def lower_char_def)

lemma search_text_chemical_tanker:
  "search_text [''subject'' \<mapsto> ''Chemical tanker''] = ''chemical tanker ''"
  by (simp add: search_text_def dict_get_def lower_def lower_char_def)

lemma cargo_twice_counts_once:
  "map_of (extract_features [''subject'' \<mapsto> ''Cargo cargo'']) ''cargo_keyword_count'' =
     Some (PInt 1)"
  by (simp add: extract_features_eq search_text_cargo_twice cargo_keywords_def)

lemma chemical_tanker_counts_both:
  "map_of (extract_features [''subject'' \<mapsto> ''Chemical tanker'']) ''vessel_keyword_count'' =
     Some (PInt 2)"
  by (simp add: extract_features_eq search_text_chemical_tanker vessel_keywords_def)

lemma keyword_counts_card:
  "map_of (extract_features email) ''cargo_keyword_count'' =
     Some (PInt (int (card {k \<in> set cargo_keywords. \<exists>ps ss. search_text email = ps @ k @ ss})))"
  "map_of (extract_features email) ''vessel_keyword_count'' =
     Some (PInt (int (card {k \<in> set vessel_keywords. \<exists>ps ss. search_text email = ps @ k @ ss})))"
  by (simp_all add: extract_features_eq count_distinct distinct_cargo_keywords
        distinct_vessel_keywords py_in_iff)

text \<open>
  Claim C7.  For every email, \<open>cargo_keyword_count\<close> and \<open>vessel_keyword_count\<close> are the
  numbers of distinct phrases of the cargo list and of the vessel list that occur as a
  substring of the lower-cased search text.  A phrase that occurs twice counts once
  (the subject "Cargo cargo" has cargo count 1), and a phrase inside another counts beside
  it (the subject "Chemical tanker" has vessel count 2, for "tanker" and "chemical tanker").
\<close>

theorem C7_keyword_counts:
  "map_of (extract_features email) ''cargo_keyword_count'' =
     Some (PInt (int (card {k \<in> set cargo_keywords. \<exists>ps ss. search_text email = ps @ k @ ss})))
   \<and> map_of (extract_features email) ''vessel_keyword_count'' =
     Some (PInt (int (card {k \<in> set vessel_keywords. \<exists>ps ss. search_text email = ps @ k @ ss})))
   \<and> map_of (extract_features [''subject'' \<mapsto> ''Cargo cargo'']) ''cargo_keyword_count'' =
     Some (PInt 1)
   \<and> map_of (extract_features [''subject'' \<mapsto> ''Chemical tanker'']) ''vessel_keyword_count'' =
     Some (PInt 2)"
  by (intro conjI keyword_counts_card cargo_twice_counts_once chemical_tanker_counts_both)

text \<open>
  Claim C10.  For every email the cargo keyword count is an integer from 0 to 49 and the
  vessel keyword count an integer from 0 to 52, where 49 and 52 are the lengths of the two
  keyword lists.
\<close>

theorem C10_keyword_count_bounds:
  "\<exists>c v. map_of (extract_features email) ''cargo_keyword_count'' = Some (PInt c)
       \<and> map_of (extract_features email) ''vessel_keyword_count'' = Some (PInt v)
       \<and> 0 \<le> c \<and> c \<le> 49 \<and> 0 \<le> v \<and> v \<le> 52
       \<and> length cargo_keywords = 49 \<and> length vessel_keywords = 52"
proof -
  have "length (filter (\<lambda>k. py_in k (search_text email)) cargo_keywords) \<le> 49"
    using length_filter_le[of _ cargo_keywords] by (simp add: length_cargo_keywords)
  moreover have "length (filter (\<lambda>k. py_in k (search_text email)) vessel_keywords) \<le> 52"
    using length_filter_le[of _ vessel_keywords] by (simp add: length_vessel_keywords)
  ultimately show ?thesis
    by (simp add: extract_features_eq count_comprehension length_cargo_keywords length_vessel_keywords)
qed

lemma search_text_empty:
  assumes "dict_get email ''subject'' '''' = ''''" and "dict_get email ''body'' '''' = ''''"
  shows "search_text email = '' ''"
  using assms by (simp add: search_text_def lower_def lower_char_def)

lemma no_cargo_keyword_in_space:
  "sum_list [1. keyword \<leftarrow> cargo_keywords, py_in keyword '' ''] = (0::int)"
  by (simp add: cargo_keywords_def)

lemma no_vessel_keyword_in_space:
  "sum_list [1. keyword \<leftarrow> vessel_keywords, py_in keyword '' ''] = (0::int)"
  by (simp add: vessel_keywords_def)

lemma no_pattern_in_space:
  "re_search tonnage_re '' '' = False" "re_search vessel_name_re '' '' = False"
  "re_search port_names_re '' '' = False"
  by (simp_all add: tonnage_re_def vessel_name_re_def port_names_re_def lit_def chr_def
        Plus_def Opt_def is_digit_def is_space_def is_word_def)

text \<open>
  Claim C9.  For every email whose subject, body and sender are empty or absent, the
  extractor returns all nine fields, every boolean one false and every count and length
  zero.
\<close>

theorem C9_empty_email:
  assumes "dict_get email ''subject'' '''' = ''''"
    and "dict_get email ''body'' '''' = ''''"
    and "dict_get email ''sender'' '''' = ''''"
  shows "extract_features email =
     [(''cargo_keyword_count'', PInt 0), (''vessel_keyword_count'', PInt 0),
      (''has_tonnage'', PBool False), (''has_vessel_name'', PBool False),
      (''has_port_names'', PBool False), (''subject_length'', PInt 0),
      (''body_length'', PInt 0), (''is_shipping_domain'', PBool False),
      (''is_cargo_domain'', PBool False)]"
proof -
  have t: "search_text email = '' ''" using assms(1,2) by (rule search_text_empty)
  show ?thesis
    unfolding extract_features_eq t assms no_cargo_keyword_in_space
      no_vessel_keyword_in_space no_pattern_in_space
    by simp
qed

theorem C9_empty_email_witness:
  "dict_get (Map.empty :: email) ''subject'' '''' = '''' \<and>
   dict_get (Map.empty :: email) ''body'' '''' = '''' \<and>
   dict_get (Map.empty :: email) ''sender'' '''' = '''' \<and>
   extract_features Map.empty =
     [(''cargo_keyword_count'', PInt 0), (''vessel_keyword_count'', PInt 0),
      (''has_tonnage'', PBool False), (''has_vessel_name'', PBool False),
      (''has_port_names'', PBool False), (''subject_length'', PInt 0),
      (''body_length'', PInt 0), (''is_shipping_domain'', PBool False),
      (''is_cargo_domain'', PBool False)]"
proof -
  have h: "dict_get (Map.empty :: email) ''subject'' '''' = ''''"
    "dict_get (Map.empty :: email) ''body'' '''' = ''''"
    "dict_get (Map.empty :: email) ''sender'' '''' = ''''"
    by (simp_all add: dict_get_def)
  from C9_empty_email[OF h] h show ?thesis by simp
qed

lemma re_search_substring:
  assumes "t = ps @ m @ ss" and "match_prefix r (m @ ss)"
  shows "re_search r t"
proof -
  from assms(2) obtain m' ss' where "m @ ss = m' @ ss'" "m' \<in> lang r"
    by (auto simp: match_prefix_iff)
  with assms(1) have "t = ps @ m' @ ss' \<and> m' \<in> lang r" by simp
  then show ?thesis unfolding re_search_iff by blast
qed

lemma match_prefix_nullable: "nullable r \<Longrightarrow> match_prefix r t"
  by (cases t) simp_all

lemma tonnage_5000_mt: "match_prefix tonnage_re (''5000 mt'' @ ss)"
  by (simp add: tonnage_re_def lit_def chr_def Plus_def Opt_def is_digit_def is_space_def
        match_prefix_nullable)

lemma lower_5000_MT: "lower ''5000 MT'' = ''5000 mt''"
  by (simp add: lower_def lower_char_def)

text \<open>
  Claim C8.  For every email whose search text contains "5000 MT" (in the lower case
  of the search text) and has no substring in the language of the vessel-name pattern,
  \<open>has_tonnage\<close> is true and \<open>has_vessel_name\<close> is false.
\<close>

theorem C8_tonnage_without_vessel_name:
  assumes "\<exists>ps ss. search_text email = ps @ lower ''5000 MT'' @ ss"
    and "\<not> (\<exists>ps m ss. search_text email = ps @ m @ ss \<and> m \<in> lang vessel_name_re)"
  shows "map_of (extract_features email) ''has_tonnage'' = Some (PBool True) \<and>
         map_of (extract_features email) ''has_vessel_name'' = Some (PBool False)"
proof -
  from assms(1) obtain ps ss where "search_text email = ps @ ''5000 mt'' @ ss"
    unfolding lower_5000_MT by blast
  then have "re_search tonnage_re (search_text email)"
    using tonnage_5000_mt by (rule re_search_substring)
  moreover have "\<not> re_search vessel_name_re (search_text email)"
    unfolding re_search_iff by (rule assms(2))
  ultimately show ?thesis by (simp add: extract_features_eq)
qed

lemma search_text_5000: "search_text [''subject'' \<mapsto> ''5000 MT''] = ''5000 mt ''"
  by (simp add: search_text_def dict_get_def lower_def lower_char_def)

theorem C8_tonnage_without_vessel_name_witness:
  "(\<exists>ps ss. search_text [''subject'' \<mapsto> ''5000 MT''] = ps @ lower ''5000 MT'' @ ss) \<and>
   \<not> (\<exists>ps m ss. search_text [''subject'' \<mapsto> ''5000 MT''] = ps @ m @ ss \<and> m \<in> lang vessel_name_re) \<and>
   map_of (extract_features [''subject'' \<mapsto> ''5000 MT'']) ''has_tonnage'' = Some (PBool True) \<and>
   map_of (extract_features [''subject'' \<mapsto> ''5000 MT'']) ''has_vessel_name'' = Some (PBool False)"
proof -
  have "py_in (lower ''5000 MT'') (search_text [''subject'' \<mapsto> ''5000 MT''])"
    by (simp add: search_text_5000 lower_5000_MT)
  then have h1: "\<exists>ps ss. search_text [''subject'' \<mapsto> ''5000 MT''] = ps @ lower ''5000 MT'' @ ss"
    by (simp only: py_in_iff)
  have nr: "\<not> re_search vessel_name_re (search_text [''subject'' \<mapsto> ''5000 MT''])"
    by (simp add: search_text_5000 vessel_name_re_def chr_def Plus_def Opt_def
          is_digit_def is_space_def is_word_def)
  have h2: "\<not> (\<exists>ps m ss. search_text [''subject'' \<mapsto> ''5000 MT''] = ps @ m @ ss
      \<and> m \<in> lang vessel_name_re)"
  proof
    assume "\<exists>ps m ss. search_text [''subject'' \<mapsto> ''5000 MT''] = ps @ m @ ss
      \<and> m \<in> lang vessel_name_re"
    then have "re_search vessel_name_re (search_text [''subject'' \<mapsto> ''5000 MT''])"
      by (simp only: re_search_iff)
    with nr show False by contradiction
  qed
  from C8_tonnage_without_vessel_name[OF h1 h2] h1 h2 show ?thesis by blast
qed

lemma lower_append: "lower (a @ b) = lower a @ lower b"
  by (simp add: lower_def)

lemma search_text_contains_lower:
  assumes "dict_get email ''subject'' '''' @ '' '' @ dict_get email ''body'' '''' = ps @ k @ ss"
  shows "search_text email = lower ps @ lower k @ lower ss"
  using assms by (simp add: search_text_def lower_append[symmetric])

section \<open>The dataset builder\<close>

lemma prepare_loop_labelled:
  "\<forall>e \<in> set td. e ''type'' \<noteq> None \<Longrightarrow>
   prepare_loop td X y =
     Inr (X @ map extract_features td, y @ map (\<lambda>e. PStr (the (e ''type''))) td)"
  by (induction td arbitrary: X y) auto


lemma columns_step:
  "feature_names @ [k \<leftarrow> map fst (extract_features e). k \<notin> set feature_names] = feature_names"
  by (simp add: keys_extract_features)

lemma columns_fold:
  "fold (\<lambda>d acc. acc @ [k \<leftarrow> map fst d. k \<notin> set acc]) (map extract_features td) feature_names
     = feature_names"
  by (induction td) (simp_all add: columns_step)

lemma columns_first:
  "[] @ [k \<leftarrow> map fst (extract_features e). k \<notin> set []] = feature_names"
  by (simp add: keys_extract_features)

lemma columns_fold_empty:
  "fold (\<lambda>d acc. acc @ [k \<leftarrow> map fst d. k \<notin> set acc]) (map extract_features td) []
     = (if td = [] then [] else feature_names)"
proof (cases td)
  case Nil
  then show ?thesis by simp
next
  case (Cons e rest)
  have "fold (\<lambda>d acc. acc @ [k \<leftarrow> map fst d. k \<notin> set acc]) (map extract_features (e # rest)) []
        = fold (\<lambda>d acc. acc @ [k \<leftarrow> map fst d. k \<notin> set acc]) (map extract_features rest)
            ([] @ [k \<leftarrow> map fst (extract_features e). k \<notin> set []])"
    by simp
  also have "\<dots> = feature_names" unfolding columns_first by (rule columns_fold)
  finally show ?thesis using Cons by simp
qed

lemma row_of_features:
  "map (\<lambda>c. case map_of (extract_features e) c of None \<Rightarrow> NaN | Some v \<Rightarrow> v) feature_names
     = map snd (extract_features e)"
  by (simp add: extract_features_eq feature_names_def)

lemma DataFrame_features:
  "td \<noteq> [] \<Longrightarrow> DataFrame (map extract_features td) =
     \<lparr>columns = feature_names, rows = map (\<lambda>e. map snd (extract_features e)) td\<rparr>"
  by (simp add: DataFrame_def columns_fold_empty row_of_features)

lemma DataFrame_empty: "DataFrame [] = \<lparr>columns = [], rows = []\<rparr>"
  by (simp add: DataFrame_def)

lemma zip_rows_labels:
  "map (\<lambda>(r, v). r @ [v]) (zip (map f xs) (map g xs)) = map (\<lambda>x. f x @ [g x]) xs"
  by (induction xs) auto

lemma prepare_dataset_labelled:
  assumes "\<forall>e \<in> set td. e ''type'' \<noteq> None"
  shows "prepare_dataset td = Inr (table_of td)"
proof (cases "td = []")
  case True
  then show ?thesis
    by (simp add: prepare_dataset_def DataFrame_empty set_column_def table_of_def)
next
  case False
  have "''label'' \<notin> set feature_names" by (simp add: feature_names_def)
  with False show ?thesis
    by (simp add: prepare_dataset_def prepare_loop_labelled[OF assms] DataFrame_features
          set_column_def zip_rows_labels table_of_def)
qed


lemma cell_label:
  "cell \<lparr>columns = feature_names @ [''label''], rows = rs\<rparr>
        (map snd (extract_features e) @ [v]) ''label'' = v"
  by (simp add: cell_def extract_features_eq feature_names_def)


lemma label_column_of_table:
  "get_column (table_of td) ''label'' = Inr (map (\<lambda>e. PStr (the (e ''type''))) td)"
proof (cases "td = []")
  case True
  then show ?thesis by (simp add: get_column_def table_of_def)
next
  case False
  then show ?thesis by (simp add: get_column_def table_of_def cell_label)
qed



text \<open>
  Claim C6.  For a corpus of labelled records (each has the key \<open>type\<close>),
  \<open>prepare_dataset\<close> returns a table with exactly one row per record, in the order of the
  corpus; the row of a record is its feature record followed by its label, and the label
  column is the list of the original labels.
\<close>

theorem C6_dataset_rows_in_order:
  assumes "\<forall>e \<in> set training_data. e ''type'' \<noteq> None"
  shows "\<exists>df. prepare_dataset training_data = Inr df
     \<and> length (rows df) = length training_data
     \<and> rows df = map (\<lambda>e. map snd (extract_features e) @ [PStr (the (e ''type''))]) training_data
     \<and> get_column df ''label'' = Inr (map (\<lambda>e. PStr (the (e ''type''))) training_data)"
  using prepare_dataset_labelled[OF assms]
  by (simp add: label_column_of_table) (simp add: table_of_def)

theorem C6_dataset_rows_in_order_witness:
  "\<exists>df. prepare_dataset [[''subject'' \<mapsto> ''5000 MT'', ''type'' \<mapsto> ''CARGO''],
                   [''subject'' \<mapsto> ''MV Star'', ''type'' \<mapsto> ''VESSEL'']] = Inr df
     \<and> length (rows df) = 2
     \<and> get_column df ''label'' = Inr [PStr ''CARGO'', PStr ''VESSEL'']"
proof -
  have h: "\<forall>e \<in> set [[''subject'' \<mapsto> ''5000 MT'', ''type'' \<mapsto> ''CARGO''],
                   [''subject'' \<mapsto> ''MV Star'', ''type'' \<mapsto> ''VESSEL'']]. e ''type'' \<noteq> None"
    by simp
  from C6_dataset_rows_in_order[OF h] show ?thesis by auto
qed

section \<open>The comparison loop\<close>

lemma fitted_only_refl: "fitted_only w w"
  by (simp add: fitted_only_def)

lemma fitted_only_trans:
  assumes "fitted_only w w1" and "fitted_only w1 w2"
  shows "fitted_only w w2"
  unfolding fitted_only_def
proof (intro conjI allI)
  show "files w2 = files w" using assms by (simp add: fitted_only_def)
  show "next_addr w2 = next_addr w" using assms by (simp add: fitted_only_def)
  fix a
  from assms(1) consider "heap w1 a = heap w a"
    | name p p' where "heap w a = Some (Estimator name p)" "heap w1 a = Some (Estimator name (Some p'))"
    unfolding fitted_only_def by blast
  then show "heap w2 a = heap w a \<or>
         (\<exists>name p p'. heap w a = Some (Estimator name p) \<and> heap w2 a = Some (Estimator name (Some p')))"
  proof cases
    case 1
    with assms(2) show ?thesis unfolding fitted_only_def by metis
  next
    case 2
    from assms(2) have "heap w2 a = heap w1 a \<or>
        (\<exists>name p p'. heap w1 a = Some (Estimator name p) \<and> heap w2 a = Some (Estimator name (Some p')))"
      unfolding fitted_only_def by blast
    with 2 show ?thesis by auto
  qed
qed

lemma models_ok_fitted_only:
  assumes "models_ok ms w" and "fitted_only w w'"
  shows "models_ok ms w'"
  unfolding models_ok_def
proof (clarify)
  fix name a assume "(name, a) \<in> set ms"
  with assms(1) obtain p where p: "heap w a = Some (Estimator name p)"
    unfolding models_ok_def by blast
  from assms(2) have "heap w' a = heap w a \<or>
      (\<exists>name p p'. heap w a = Some (Estimator name p) \<and> heap w' a = Some (Estimator name (Some p')))"
    unfolding fitted_only_def by blast
  with p show "\<exists>p. heap w' a = Some (Estimator name p)" by auto
qed

lemma fit_Inr:
  assumes "fit sk model X y w = Inr w'"
  shows "\<exists>name p0 p. heap w model = Some (Estimator name p0) \<and> estimator_fit sk name X y = Inr p
           \<and> w' = w\<lparr>heap := (heap w)(model \<mapsto> Estimator name (Some p))\<rparr>"
  using assms
  by (auto simp: fit_def split: option.splits obj.splits sum.splits)

lemma fit_fitted_only:
  assumes "fit sk model X y w = Inr w'"
  shows "fitted_only w w'"
proof -
  from fit_Inr[OF assms] obtain name p0 p where
    h: "heap w model = Some (Estimator name p0)"
       "w' = w\<lparr>heap := (heap w)(model \<mapsto> Estimator name (Some p))\<rparr>" by blast
  show ?thesis unfolding fitted_only_def using h by auto
qed

lemma evaluate_candidate_Inr:
  assumes "evaluate_candidate sk d name model w = Inr (acc, w')"
    and "heap w model = Some (Estimator name p0)"
  shows "\<exists>p. estimator_fit sk name (train_view name d) (p_y_train d) = Inr p"
    and "acc = candidate_accuracy sk d name"
    and "fitted_only w w'"
proof -
  from assms(1) obtain w1 where f: "fit sk model (train_view name d) (p_y_train d) w = Inr w1"
    by (auto simp: evaluate_candidate_def split: sum.splits)
  from fit_Inr[OF f] assms(2) obtain p where
    p: "estimator_fit sk name (train_view name d) (p_y_train d) = Inr p"
       "w1 = w\<lparr>heap := (heap w)(model \<mapsto> Estimator name (Some p))\<rparr>" by auto
  show "\<exists>p. estimator_fit sk name (train_view name d) (p_y_train d) = Inr p" using p(1) by blast
  from assms(1) f p show "acc = candidate_accuracy sk d name"
    by (auto simp: evaluate_candidate_def predict_def candidate_accuracy_def Let_def
          split: sum.splits)
  from assms(1) f have "w' = w1"
    by (auto simp: evaluate_candidate_def Let_def split: sum.splits)
  with fit_fitted_only[OF f] show "fitted_only w w'" by simp
qed

lemma evaluate_candidate_fit_error:
  assumes "heap w model = Some (Estimator name p0)"
    and "estimator_fit sk name (train_view name d) (p_y_train d) = Inl e"
  shows "evaluate_candidate sk d name model w = Inl e"
  using assms by (simp add: evaluate_candidate_def fit_def)

lemma models_ok_Cons:
  "models_ok ((name, a) # rest) w \<longleftrightarrow>
     (\<exists>p. heap w a = Some (Estimator name p)) \<and> models_ok rest w"
  by (auto simp: models_ok_def)

lemma model_loop_Cons_Inr:
  assumes "model_loop sk d ((name, a) # rest) (bm, bs, bn, w) = Inr st'"
  obtains acc w1 where "evaluate_candidate sk d name a w = Inr (acc, w1)"
    and "model_loop sk d rest
           (if acc > bs then (Some a, acc, Some name, w1) else (bm, bs, bn, w1)) = Inr st'"
  using assms by (auto split: sum.splits if_splits)

lemma model_loop_frame:
  assumes "models_ok ms w"
    and "model_loop sk d ms (bm, bs, bn, w) = Inr (bm', bs', bn', w')"
  shows "fitted_only w w'"
  using assms
proof (induction ms arbitrary: bm bs bn w)
  case Nil
  then show ?case by (simp add: fitted_only_refl)
next
  case (Cons m rest)
  obtain name a where m: "m = (name, a)" by (cases m)
  from Cons.prems(1) m obtain p0 where c: "heap w a = Some (Estimator name p0)"
    and ok: "models_ok rest w" by (auto simp: models_ok_Cons)
  from Cons.prems(2)[unfolded m] obtain acc w1 where
    ev: "evaluate_candidate sk d name a w = Inr (acc, w1)" and
    lp: "model_loop sk d rest
           (if acc > bs then (Some a, acc, Some name, w1) else (bm, bs, bn, w1))
         = Inr (bm', bs', bn', w')"
    by (rule model_loop_Cons_Inr)
  have f: "fitted_only w w1" using ev c by (rule evaluate_candidate_Inr(3))
  then have ok1: "models_ok rest w1" using ok by (simp add: models_ok_fitted_only)
  have "fitted_only w1 w'"
  proof (cases "acc > bs")
    case True
    with lp Cons.IH[OF ok1] show ?thesis by simp
  next
    case False
    with lp Cons.IH[OF ok1] show ?thesis by simp
  qed
  with f show ?case by (rule fitted_only_trans)
qed

lemma model_loop_all_fit:
  assumes "models_ok ms w"
    and "model_loop sk d ms (bm, bs, bn, w) = Inr st'"
  shows "\<forall>(name, a) \<in> set ms.
           \<exists>p. estimator_fit sk name (train_view name d) (p_y_train d) = Inr p"
  using assms
proof (induction ms arbitrary: bm bs bn w)
  case Nil
  then show ?case by simp
next
  case (Cons m rest)
  obtain name a where m: "m = (name, a)" by (cases m)
  from Cons.prems(1) m obtain p0 where c: "heap w a = Some (Estimator name p0)"
    and ok: "models_ok rest w" by (auto simp: models_ok_Cons)
  from Cons.prems(2)[unfolded m] obtain acc w1 where
    ev: "evaluate_candidate sk d name a w = Inr (acc, w1)" and
    lp: "model_loop sk d rest
           (if acc > bs then (Some a, acc, Some name, w1) else (bm, bs, bn, w1)) = Inr st'"
    by (rule model_loop_Cons_Inr)
  have f: "fitted_only w w1" using ev c by (rule evaluate_candidate_Inr(3))
  then have ok1: "models_ok rest w1" using ok by (simp add: models_ok_fitted_only)
  have here: "\<exists>p. estimator_fit sk name (train_view name d) (p_y_train d) = Inr p"
    using ev c by (rule evaluate_candidate_Inr(1))
  have "\<forall>(name, a) \<in> set rest.
           \<exists>p. estimator_fit sk name (train_view name d) (p_y_train d) = Inr p"
  proof (cases "acc > bs")
    case True
    with lp Cons.IH[OF ok1] show ?thesis by simp
  next
    case False
    with lp Cons.IH[OF ok1] show ?thesis by simp
  qed
  with here m show ?case by simp
qed


lemma new_models_names:
  assumes "new_models model_names w = (ms, w')"
  shows "map fst ms = model_names" and "models_ok ms w'" and "files w' = files w"
    and "\<forall>a. heap w' a = heap w a \<or> (\<exists>name. heap w' a = Some (Estimator name None))"
  using assms
  by (auto simp: model_names_def new_def Let_def models_ok_def)

lemma load_and_split_unfold:
  assumes "load_and_split sk w = Inr d"
  obtains df X y Xtr Xte ytr yte Xtrs w1 Xtes ms w2 where
       "read_csv ''ml/training_data.csv'' w = Inr df"
       "get_columns df [col \<leftarrow> columns df. col \<noteq> ''label''] = Inr X"
       "get_column df ''label'' = Inr y"
       "train_test_split sk X y = Inr (Xtr, Xte, ytr, yte)"
       "fit_transform sk (next_addr w) Xtr
          (w\<lparr>heap := (heap w)(next_addr w \<mapsto> StandardScaler None),
             next_addr := Suc (next_addr w)\<rparr>) = Inr (Xtrs, w1)"
       "transform sk (next_addr w) Xte w1 = Inr Xtes"
       "new_models model_names w1 = (ms, w2)"
       "d = \<lparr>p_feature_columns = [col \<leftarrow> columns df. col \<noteq> ''label''], p_X = X, p_y = y,
           p_X_train = Xtr, p_X_test = Xte, p_y_train = ytr, p_y_test = yte,
           p_X_train_scaled = Xtrs, p_X_test_scaled = Xtes,
           p_scaler = next_addr w, p_models = ms, p_world = w2\<rparr>"
  using assms
  unfolding load_and_split_def Let_def new_def
  by (auto split: sum.splits prod.splits)

lemma load_and_split_Inr:
  assumes "load_and_split sk w = Inr d"
  shows "\<exists>df. read_csv ''ml/training_data.csv'' w = Inr df
            \<and> p_feature_columns d = [col \<leftarrow> columns df. col \<noteq> ''label'']
            \<and> get_columns df (p_feature_columns d) = Inr (p_X d)
            \<and> get_column df ''label'' = Inr (p_y d)"
    and "train_test_split sk (p_X d) (p_y d)
           = Inr (p_X_train d, p_X_test d, p_y_train d, p_y_test d)"
    and "map fst (p_models d) = model_names"
    and "models_ok (p_models d) (p_world d)"
    and "files (p_world d) = files w"
proof -
  from load_and_split_unfold[OF assms] obtain df X y Xtr Xte ytr yte Xtrs w1 Xtes ms w2 where
    a: "read_csv ''ml/training_data.csv'' w = Inr df"
       "get_columns df [col \<leftarrow> columns df. col \<noteq> ''label''] = Inr X"
       "get_column df ''label'' = Inr y"
       "train_test_split sk X y = Inr (Xtr, Xte, ytr, yte)"
       "fit_transform sk (next_addr w) Xtr
          (w\<lparr>heap := (heap w)(next_addr w \<mapsto> StandardScaler None),
             next_addr := Suc (next_addr w)\<rparr>) = Inr (Xtrs, w1)"
       "transform sk (next_addr w) Xte w1 = Inr Xtes"
       "new_models model_names w1 = (ms, w2)"
       "d = \<lparr>p_feature_columns = [col \<leftarrow> columns df. col \<noteq> ''label''], p_X = X, p_y = y,
           p_X_train = Xtr, p_X_test = Xte, p_y_train = ytr, p_y_test = yte,
           p_X_train_scaled = Xtrs, p_X_test_scaled = Xtes,
           p_scaler = next_addr w, p_models = ms, p_world = w2\<rparr>"
    by blast
  from a(5) have w1: "files w1 = files w"
    by (auto simp: fit_transform_def Let_def)
  show "\<exists>df. read_csv ''ml/training_data.csv'' w = Inr df
            \<and> p_feature_columns d = [col \<leftarrow> columns df. col \<noteq> ''label'']
            \<and> get_columns df (p_feature_columns d) = Inr (p_X d)
            \<and> get_column df ''label'' = Inr (p_y d)"
    using a by simp
  show "train_test_split sk (p_X d) (p_y d)
           = Inr (p_X_train d, p_X_test d, p_y_train d, p_y_test d)"
    using a by simp
  show "map fst (p_models d) = model_names" using new_models_names(1)[OF a(7)] a(8) by simp
  show "models_ok (p_models d) (p_world d)" using new_models_names(2)[OF a(7)] a(8) by simp
  show "files (p_world d) = files w" using new_models_names(3)[OF a(7)] a(8) w1 by simp
qed

section \<open>The scaler, the refit and the files\<close>

lemma new_models_explicit:
  "new_models model_names w =
     ([(''RandomForest'', next_addr w), (''GradientBoosting'', Suc (next_addr w)),
       (''LogisticRegression'', Suc (Suc (next_addr w))), (''SVM'', Suc (Suc (Suc (next_addr w))))],
      w\<lparr>heap := (heap w)(next_addr w \<mapsto> Estimator ''RandomForest'' None,
                Suc (next_addr w) \<mapsto> Estimator ''GradientBoosting'' None,
                Suc (Suc (next_addr w)) \<mapsto> Estimator ''LogisticRegression'' None,
                Suc (Suc (Suc (next_addr w))) \<mapsto> Estimator ''SVM'' None),
         next_addr := Suc (Suc (Suc (Suc (next_addr w))))\<rparr>)"
  by (simp add: model_names_def new_def)

lemma new_models_below:
  assumes "new_models model_names w = (ms, w')" and "a < next_addr w"
  shows "heap w' a = heap w a"
  using assms unfolding new_models_explicit by auto

lemma dump_Inr:
  assumes "dump a path w = Inr w'"
  shows "\<exists>ob. heap w a = Some ob \<and> w' = w\<lparr>files := (files w)(path \<mapsto> Pickle ob)\<rparr>"
  using assms by (auto simp: dump_def split: option.splits)

lemma fit_transform_Inr:
  assumes "fit_transform sk s X w = Inr (Xs, w')"
  shows "w' = w\<lparr>heap := (heap w)(s \<mapsto> StandardScaler (Some (scaler_fit sk X)))\<rparr>"
  using assms by (auto simp: fit_transform_def Let_def split: option.splits obj.splits)

lemma load_and_split_scaler:
  assumes "load_and_split sk w = Inr d"
  shows "p_scaler d = next_addr w"
    and "heap (p_world d) (p_scaler d) = Some (StandardScaler (Some (scaler_fit sk (p_X_train d))))"
    and "\<forall>a. a \<noteq> p_scaler d \<longrightarrow>
           heap (p_world d) a = heap w a \<or> (\<exists>name p. heap (p_world d) a = Some (Estimator name p))"
proof -
  from assms obtain df X y Xtr Xte ytr yte Xtrs w1 Xtes ms w2 where
       "read_csv ''ml/training_data.csv'' w = Inr df"
       "get_columns df [col \<leftarrow> columns df. col \<noteq> ''label''] = Inr X"
       "get_column df ''label'' = Inr y"
       "train_test_split sk X y = Inr (Xtr, Xte, ytr, yte)"
    and a1: "fit_transform sk (next_addr w) Xtr
          (w\<lparr>heap := (heap w)(next_addr w \<mapsto> StandardScaler None),
             next_addr := Suc (next_addr w)\<rparr>) = Inr (Xtrs, w1)"
    and "transform sk (next_addr w) Xte w1 = Inr Xtes"
    and a2: "new_models model_names w1 = (ms, w2)"
    and a3: "d = \<lparr>p_feature_columns = [col \<leftarrow> columns df. col \<noteq> ''label''], p_X = X, p_y = y,
           p_X_train = Xtr, p_X_test = Xte, p_y_train = ytr, p_y_test = yte,
           p_X_train_scaled = Xtrs, p_X_test_scaled = Xtes,
           p_scaler = next_addr w, p_models = ms, p_world = w2\<rparr>"
    by (rule load_and_split_unfold)
  have s: "p_scaler d = next_addr w" and tr: "p_X_train d = Xtr" and pw: "p_world d = w2"
    using a3 by simp_all
  have h1: "heap w1 = (heap w)(next_addr w \<mapsto> StandardScaler (Some (scaler_fit sk Xtr)))"
    and n1: "next_addr w1 = Suc (next_addr w)"
    using fit_transform_Inr[OF a1] by simp_all
  show "p_scaler d = next_addr w" by (rule s)
  have "heap w2 (next_addr w) = heap w1 (next_addr w)"
    using a2 by (rule new_models_below) (simp add: n1)
  then show "heap (p_world d) (p_scaler d) = Some (StandardScaler (Some (scaler_fit sk (p_X_train d))))"
    unfolding s tr pw h1 by simp
  show "\<forall>a. a \<noteq> p_scaler d \<longrightarrow>
           heap (p_world d) a = heap w a \<or> (\<exists>name p. heap (p_world d) a = Some (Estimator name p))"
    unfolding s pw
  proof (intro allI impI)
    fix a assume ne: "a \<noteq> next_addr w"
    from new_models_names(4)[OF a2]
    have "heap w2 a = heap w1 a \<or> (\<exists>name. heap w2 a = Some (Estimator name None))" by blast
    moreover have "heap w1 a = heap w a" using ne h1 by simp
    ultimately show "heap w2 a = heap w a \<or> (\<exists>name p. heap w2 a = Some (Estimator name p))"
      by metis
  qed
qed

lemma finalize_Inr:
  assumes "finalize sk d (bm, bs, bn, w) = Inr out"
  obtains model name where "bm = Some model" and "bn = Some name"
    and "out_locals out = d" and "out_best_model out = model"
    and "out_best_score out = bs" and "out_best_model_name out = name"
    and "out_metadata out =
               \<lparr>md_model_type = name, md_accuracy = bs,
                md_feature_columns = p_feature_columns d, md_classes = [''CARGO'', ''VESSEL''],
                md_needs_scaling = (name \<in> set [''LogisticRegression'', ''SVM''])\<rparr>"
proof (cases bm)
  case None
  with assms show ?thesis by (simp add: finalize_def)
next
  case (Some model)
  note bm = this
  show ?thesis
  proof (cases bn)
    case None
    with assms bm show ?thesis by (simp add: finalize_def)
  next
    case (Some name)
    with assms bm that[of model name] show ?thesis
      by (auto simp: finalize_def Let_def split: sum.splits)
  qed
qed

lemma finalize_scaled_unfold:
  assumes "finalize sk d (Some model, bs, Some name, w) = Inr out"
    and "name \<in> set [''LogisticRegression'', ''SVM'']"
  obtains Xs w1 w2 w3 w4 md where
    "fit_transform sk (p_scaler d) (p_X d) w = Inr (Xs, w1)"
    "fit sk model Xs (p_y d) w1 = Inr w2"
    "dump (p_scaler d) ''ml/scaler.pkl'' w2 = Inr w3"
    "dump model ''ml/email_classifier.pkl'' w3 = Inr w4"
    "out_world out = w4\<lparr>files := (files w4)(''ml/model_metadata.json'' \<mapsto> Json md)\<rparr>"
  using assms
  by (auto simp: finalize_def Let_def split: sum.splits prod.splits)

lemma finalize_scaler:
  assumes "finalize sk d (bm, bs, bn, w) = Inr out"
    and "md_needs_scaling (out_metadata out)"
  shows "heap (out_world out) (p_scaler d) = Some (StandardScaler (Some (scaler_fit sk (p_X d))))"
    and "files (out_world out) ''ml/scaler.pkl''
           = Some (Pickle (StandardScaler (Some (scaler_fit sk (p_X d)))))"
    and "\<forall>a. a \<noteq> p_scaler d \<longrightarrow>
           heap (out_world out) a = heap w a \<or> (\<exists>name p. heap (out_world out) a = Some (Estimator name p))"
proof -
  from assms(1) obtain model name where
    n: "bm = Some model" "bn = Some name" and
    md: "out_metadata out =
               \<lparr>md_model_type = name, md_accuracy = bs,
                md_feature_columns = p_feature_columns d, md_classes = [''CARGO'', ''VESSEL''],
                md_needs_scaling = (name \<in> set [''LogisticRegression'', ''SVM''])\<rparr>"
    by (rule finalize_Inr)
  from assms(2) md have sc: "name \<in> set [''LogisticRegression'', ''SVM'']" by simp
  from assms(1)[unfolded n] sc obtain Xs w1 w2 w3 w4 md' where
    s1: "fit_transform sk (p_scaler d) (p_X d) w = Inr (Xs, w1)" and
    s2: "fit sk model Xs (p_y d) w1 = Inr w2" and
    s3: "dump (p_scaler d) ''ml/scaler.pkl'' w2 = Inr w3" and
    s4: "dump model ''ml/email_classifier.pkl'' w3 = Inr w4" and
    s5: "out_world out = w4\<lparr>files := (files w4)(''ml/model_metadata.json'' \<mapsto> Json md')\<rparr>"
    by (rule finalize_scaled_unfold)
  have h1: "heap w1 = (heap w)(p_scaler d \<mapsto> StandardScaler (Some (scaler_fit sk (p_X d))))"
    using fit_transform_Inr[OF s1] by simp
  from fit_Inr[OF s2] obtain nm p0 p where
    m: "heap w1 model = Some (Estimator nm p0)" and
    w2: "w2 = w1\<lparr>heap := (heap w1)(model \<mapsto> Estimator nm (Some p))\<rparr>" by blast
  from m h1 have ne: "model \<noteq> p_scaler d" by auto
  have h2: "heap w2 = (heap w1)(model \<mapsto> Estimator nm (Some p))" using w2 by simp
  from dump_Inr[OF s3] obtain ob where
    ob: "heap w2 (p_scaler d) = Some ob" and
    w3: "w3 = w2\<lparr>files := (files w2)(''ml/scaler.pkl'' \<mapsto> Pickle ob)\<rparr>" by blast
  from dump_Inr[OF s4] obtain ob' where
    w4: "w4 = w3\<lparr>files := (files w3)(''ml/email_classifier.pkl'' \<mapsto> Pickle ob')\<rparr>" by blast
  have hout: "heap (out_world out) = heap w2" using s5 w4 w3 by simp
  have fout: "files (out_world out) ''ml/scaler.pkl'' = Some (Pickle ob)"
    using s5 w4 w3 by simp
  have sc2: "heap w2 (p_scaler d) = Some (StandardScaler (Some (scaler_fit sk (p_X d))))"
    using h1 h2 ne by simp
  show "heap (out_world out) (p_scaler d) = Some (StandardScaler (Some (scaler_fit sk (p_X d))))"
    using hout sc2 by simp
  show "files (out_world out) ''ml/scaler.pkl''
           = Some (Pickle (StandardScaler (Some (scaler_fit sk (p_X d)))))"
    using fout ob sc2 by simp
  show "\<forall>a. a \<noteq> p_scaler d \<longrightarrow>
           heap (out_world out) a = heap w a \<or> (\<exists>name p. heap (out_world out) a = Some (Estimator name p))"
    unfolding hout h2 h1 by simp
qed

lemma train_Inr:
  assumes "train_email_classifier sk w = Inr out"
  obtains bm bs bn w1 where "load_and_split sk w = Inr (out_locals out)"
    and "model_loop sk (out_locals out) (p_models (out_locals out))
                (None, 0, None, p_world (out_locals out)) = Inr (bm, bs, bn, w1)"
    and "finalize sk (out_locals out) (bm, bs, bn, w1) = Inr out"
proof -
  from assms obtain d st where
    a: "load_and_split sk w = Inr d"
       "model_loop sk d (p_models d) (None, 0, None, p_world d) = Inr st"
       "finalize sk d st = Inr out"
    unfolding train_email_classifier_def Let_def by (auto split: sum.splits)
  obtain bm bs bn w1 where st: "st = (bm, bs, bn, w1)" by (cases st)
  from a(3)[unfolded st] have "out_locals out = d" by (rule finalize_Inr)
  with a st that show ?thesis by simp
qed

section \<open>The selected model and the metadata\<close>





lemmas run_defs =
  train_email_classifier_def load_and_split_def read_csv_def toy_world_def
  fresh_def toy_table_def get_columns_def get_column_def cell_def toy_sklearn_def new_def
  fit_transform_def transform_def model_names_def evaluate_candidate_def fit_def
  predict_def train_view_def test_view_def accuracy_score_def finalize_def dump_def Let_def



text \<open>
  Claim C3.  The selection is by the test \<open>accuracy > best_score\<close> with \<open>best_score\<close>
  starting at 0.  On the toy table with four candidates that all misclassify the test row,
  every accuracy is 0, no candidate is selected (the first declared is not), and line 104
  raises \<open>AttributeError\<close>.  The lemma \<open>train_selected\<close> is the selection rule of the runs
  that return.
\<close>

theorem C3_all_zero_selects_none:
  "train_email_classifier (toy_sklearn all_wrong) toy_world = Inl (AttributeError ''fit'')
   \<and> (\<exists>d. load_and_split (toy_sklearn all_wrong) toy_world = Inr d
        \<and> map (candidate_accuracy (toy_sklearn all_wrong) d) model_names = [0, 0, 0, 0])"
  by (simp add: run_defs all_wrong_def candidate_accuracy_def)

section \<open>One scaler, refitted in place\<close>

lemma fitted_only_heap:
  assumes "fitted_only w w'"
  shows "heap w' a = heap w a \<or> (\<exists>name p. heap w' a = Some (Estimator name p))"
proof -
  from assms have "heap w' a = heap w a \<or>
      (\<exists>name p p'. heap w a = Some (Estimator name p) \<and>
                    heap w' a = Some (Estimator name (Some p')))"
    unfolding fitted_only_def by blast
  then show ?thesis by blast
qed

text \<open>
  Claim C1, as stated, fails.  In the run on the toy table where only LogisticRegression
  classifies the test row, the one \<open>StandardScaler\<close> object is object 0: when the
  comparison begins it holds the fit on the train partition, after the run it holds the
  fit on the full matrix, and the file \<open>ml/scaler.pkl\<close> is written from it.  There is no
  second scaler, and the scaler of the comparison is changed by the refit.
\<close>

theorem C1_counterexample:
  "\<exists>out. train_email_classifier (toy_sklearn only_logistic_right) toy_world = Inr out
     \<and> md_needs_scaling (out_metadata out)
     \<and> p_scaler (out_locals out) = 0
     \<and> heap (p_world (out_locals out)) 0 = Some (StandardScaler (Some [[PInt 2], [PInt 3]]))
     \<and> map (heap (out_world out)) [0, 1, 2, 3, 4, 5] =
         [Some (StandardScaler (Some [[PInt 1], [PInt 2], [PInt 3]])),
          Some (Estimator ''RandomForest'' (Some (PStr ''VESSEL''))),
          Some (Estimator ''GradientBoosting'' (Some (PStr ''VESSEL''))),
          Some (Estimator ''LogisticRegression'' (Some (PStr ''CARGO''))),
          Some (Estimator ''SVM'' (Some (PStr ''VESSEL''))),
          None]
     \<and> files (out_world out) ''ml/scaler.pkl'' =
         Some (Pickle (StandardScaler (Some [[PInt 1], [PInt 2], [PInt 3]])))"
  by (simp add: run_defs only_logistic_right_def)

text \<open>
  Claim C1, amended.  When the selected model needs scaling, the scaler object of the
  comparison, which was fitted on the train partition, is itself refitted on the full
  feature matrix; the file \<open>ml/scaler.pkl\<close> holds that refitted state; and every other
  object of the final heap is as it was before the run or is an estimator, so the run
  leaves no second scaler.
\<close>

theorem C1_scaler_refit_in_place:
  assumes "train_email_classifier sk w = Inr out"
    and "md_needs_scaling (out_metadata out)"
  shows "heap (p_world (out_locals out)) (p_scaler (out_locals out)) =
           Some (StandardScaler (Some (scaler_fit sk (p_X_train (out_locals out)))))
       \<and> heap (out_world out) (p_scaler (out_locals out)) =
           Some (StandardScaler (Some (scaler_fit sk (p_X (out_locals out)))))
       \<and> files (out_world out) ''ml/scaler.pkl'' =
           Some (Pickle (StandardScaler (Some (scaler_fit sk (p_X (out_locals out))))))
       \<and> (\<forall>a. a \<noteq> p_scaler (out_locals out) \<longrightarrow>
             heap (out_world out) a = heap w a \<or>
             (\<exists>name p. heap (out_world out) a = Some (Estimator name p)))"
proof -
  define d where "d = out_locals out"
  from assms(1) obtain bm bs bn w1 where
    ld: "load_and_split sk w = Inr d" and
    lp: "model_loop sk d (p_models d) (None, 0, None, p_world d) = Inr (bm, bs, bn, w1)" and
    fin: "finalize sk d (bm, bs, bn, w1) = Inr out"
    unfolding d_def by (rule train_Inr)
  have ok: "models_ok (p_models d) (p_world d)" using ld by (rule load_and_split_Inr(4))
  have fr: "fitted_only (p_world d) w1" using ok lp by (rule model_loop_frame)
  have c1: "heap (p_world d) (p_scaler d) =
           Some (StandardScaler (Some (scaler_fit sk (p_X_train d))))"
    using ld by (rule load_and_split_scaler(2))
  have c2: "heap (out_world out) (p_scaler d) =
           Some (StandardScaler (Some (scaler_fit sk (p_X d))))"
    using fin assms(2) by (rule finalize_scaler(1))
  have c3: "files (out_world out) ''ml/scaler.pkl'' =
           Some (Pickle (StandardScaler (Some (scaler_fit sk (p_X d)))))"
    using fin assms(2) by (rule finalize_scaler(2))
  have c4: "\<forall>a. a \<noteq> p_scaler d \<longrightarrow>
             heap (out_world out) a = heap w a \<or>
             (\<exists>name p. heap (out_world out) a = Some (Estimator name p))"
  proof (intro allI impI)
    fix a assume ne: "a \<noteq> p_scaler d"
    have s1: "heap (p_world d) a = heap w a \<or>
        (\<exists>name p. heap (p_world d) a = Some (Estimator name p))"
      using load_and_split_scaler(3)[OF ld] ne by blast
    have s2: "heap w1 a = heap (p_world d) a \<or> (\<exists>name p. heap w1 a = Some (Estimator name p))"
      using fr by (rule fitted_only_heap)
    have s3: "heap (out_world out) a = heap w1 a \<or>
        (\<exists>name p. heap (out_world out) a = Some (Estimator name p))"
      using finalize_scaler(3)[OF fin assms(2)] ne by blast
    from s1 s2 s3 show "heap (out_world out) a = heap w a \<or>
             (\<exists>name p. heap (out_world out) a = Some (Estimator name p))"
      by metis
  qed
  from c1 c2 c3 c4 show ?thesis unfolding d_def by blast
qed

lemma toy_run_logistic_selected:
  "\<exists>out. train_email_classifier (toy_sklearn only_logistic_right) toy_world = Inr out
     \<and> md_needs_scaling (out_metadata out)
     \<and> p_X_train (out_locals out) = [[PInt 2], [PInt 3]]
     \<and> p_X (out_locals out) = [[PInt 1], [PInt 2], [PInt 3]]"
  by (simp add: run_defs only_logistic_right_def)

theorem C1_scaler_refit_in_place_witness:
  "\<exists>out. train_email_classifier (toy_sklearn only_logistic_right) toy_world = Inr out
     \<and> md_needs_scaling (out_metadata out)
     \<and> heap (p_world (out_locals out)) (p_scaler (out_locals out)) =
           Some (StandardScaler (Some [[PInt 2], [PInt 3]]))
     \<and> heap (out_world out) (p_scaler (out_locals out)) =
           Some (StandardScaler (Some [[PInt 1], [PInt 2], [PInt 3]]))
     \<and> files (out_world out) ''ml/scaler.pkl'' =
           Some (Pickle (StandardScaler (Some [[PInt 1], [PInt 2], [PInt 3]])))"
proof -
  from toy_run_logistic_selected obtain out where
    r: "train_email_classifier (toy_sklearn only_logistic_right) toy_world = Inr out" and
    n: "md_needs_scaling (out_metadata out)" and
    x: "p_X_train (out_locals out) = [[PInt 2], [PInt 3]]"
       "p_X (out_locals out) = [[PInt 1], [PInt 2], [PInt 3]]"
    by blast
  have f: "scaler_fit (toy_sklearn only_logistic_right) = (\<lambda>X. X)"
    by (simp add: toy_sklearn_def)
  from C1_scaler_refit_in_place[OF r n] have
    "heap (p_world (out_locals out)) (p_scaler (out_locals out)) =
           Some (StandardScaler (Some [[PInt 2], [PInt 3]]))"
    "heap (out_world out) (p_scaler (out_locals out)) =
           Some (StandardScaler (Some [[PInt 1], [PInt 2], [PInt 3]]))"
    "files (out_world out) ''ml/scaler.pkl'' =
           Some (Pickle (StandardScaler (Some [[PInt 1], [PInt 2], [PInt 3]])))"
    unfolding f x by simp_all
  with r n show ?thesis by blast
qed

section \<open>A candidate that fails to fit\<close>

text \<open>
  Claim C2, as stated, fails.  With a RandomForest whose fit raises and three other
  candidates whose fits succeed, the run ends with the error of that fit.
\<close>

theorem C2_counterexample:
  "train_email_classifier (toy_sklearn forest_fails) toy_world = Inl (ValueError ''fit'')
   \<and> map (\<lambda>name. estimator_fit (toy_sklearn forest_fails) name
                [[PInt 2], [PInt 3]] [PStr ''VESSEL'', PStr ''CARGO'']) model_names =
       [Inl (ValueError ''fit''), Inr (PStr ''CARGO''), Inr (PStr ''CARGO''),
        Inr (PStr ''CARGO'')]"
  by (simp add: run_defs forest_fails_def)

lemma evaluate_candidate_error:
  assumes "heap w model = Some (Estimator name p0)"
    and "candidate_error sk d name = Some e"
  shows "evaluate_candidate sk d name model w = Inl e"
  using assms
  by (auto simp: candidate_error_def evaluate_candidate_def fit_def predict_def Let_def
        split: sum.splits)

lemma evaluate_candidate_no_error:
  assumes "heap w model = Some (Estimator name p0)"
    and "candidate_error sk d name = None"
  shows "\<exists>acc w'. evaluate_candidate sk d name model w = Inr (acc, w')"
  using assms
  by (auto simp: candidate_error_def evaluate_candidate_def fit_def predict_def Let_def
        split: sum.splits)

lemma model_loop_first_error:
  assumes "models_ok ms w"
    and "find (\<lambda>n. candidate_error sk d n \<noteq> None) (map fst ms) = Some n0"
    and "candidate_error sk d n0 = Some e0"
  shows "model_loop sk d ms (bm, bs, bn, w) = Inl e0"
  using assms(1,2)
proof (induction ms arbitrary: bm bs bn w)
  case Nil
  then show ?case by simp
next
  case (Cons m rest)
  obtain name a where m: "m = (name, a)" by (cases m)
  from Cons.prems(1) m obtain p0 where c: "heap w a = Some (Estimator name p0)"
    and ok: "models_ok rest w" by (auto simp: models_ok_Cons)
  show ?case
  proof (cases "candidate_error sk d name")
    case (Some e)
    with Cons.prems(2) m have "n0 = name" by simp
    with assms(3) have "candidate_error sk d name = Some e0" by simp
    with c have "evaluate_candidate sk d name a w = Inl e0"
      by (rule evaluate_candidate_error)
    then show ?thesis using m by simp
  next
    case None
    with Cons.prems(2) m have
      f: "find (\<lambda>n. candidate_error sk d n \<noteq> None) (map fst rest) = Some n0" by simp
    from evaluate_candidate_no_error[OF c None] obtain acc w1 where
      ev: "evaluate_candidate sk d name a w = Inr (acc, w1)" by blast
    have "fitted_only w w1" using ev c by (rule evaluate_candidate_Inr(3))
    then have ok1: "models_ok rest w1" using ok by (simp add: models_ok_fitted_only)
    note ih = Cons.IH[OF ok1 f]
    show ?thesis using ev m ih[of "Some a" acc "Some name"] ih[of bm bs bn] by simp
  qed
qed

lemma find_first:
  "x \<in> set xs \<Longrightarrow> P x \<Longrightarrow> (\<forall>y \<in> set (takeWhile (\<lambda>y. y \<noteq> x) xs). \<not> P y)
     \<Longrightarrow> find P xs = Some x"
proof (induction xs)
  case Nil
  then show ?case by simp
next
  case (Cons a xs)
  show ?case
  proof (cases "a = x")
    case True
    with Cons.prems(2) show ?thesis by simp
  next
    case False
    with Cons.prems have "\<not> P a" and "x \<in> set xs"
      and "\<forall>y \<in> set (takeWhile (\<lambda>y. y \<noteq> x) xs). \<not> P y" by auto
    with Cons.IH Cons.prems(2) show ?thesis by simp
  qed
qed

lemma find_exists:
  "x \<in> set xs \<Longrightarrow> P x \<Longrightarrow> \<exists>y. find P xs = Some y \<and> P y"
  by (induction xs) auto

text \<open>
  Claim C2, amended.  If the fit of a candidate raises on its training view, the candidate
  is not set aside and the loop does not go on: the run fails, whatever the other
  candidates do, with the exception of the first candidate, in the order of \<open>models\<close>,
  whose fit or cross-validation raises.  That is the exception of the failing fit itself
  when no candidate declared before it raises; so when every candidate fails to fit, the
  run fails with the exception of the first one.
\<close>

theorem C2_candidate_failure_aborts:
  assumes "load_and_split sk w = Inr d"
    and "name \<in> set model_names"
    and "estimator_fit sk name (train_view name d) (p_y_train d) = Inl e"
  shows "(\<exists>n0 e0. find (\<lambda>n. candidate_error sk d n \<noteq> None) model_names = Some n0
            \<and> candidate_error sk d n0 = Some e0
            \<and> train_email_classifier sk w = Inl e0)
       \<and> ((\<forall>n \<in> set (takeWhile (\<lambda>n. n \<noteq> name) model_names). candidate_error sk d n = None)
            \<longrightarrow> train_email_classifier sk w = Inl e)"
proof -
  have ok: "models_ok (p_models d) (p_world d)" using assms(1) by (rule load_and_split_Inr(4))
  have names: "map fst (p_models d) = model_names" using assms(1) by (rule load_and_split_Inr(3))
  have ce: "candidate_error sk d name = Some e"
    using assms(3) by (simp add: candidate_error_def)
  have run: "train_email_classifier sk w = Inl e0"
    if "find (\<lambda>n. candidate_error sk d n \<noteq> None) model_names = Some n0"
      and "candidate_error sk d n0 = Some e0" for n0 e0
  proof -
    have "model_loop sk d (p_models d) (None, 0, None, p_world d) = Inl e0"
      using ok that(1)[folded names] that(2) by (rule model_loop_first_error)
    then show ?thesis using assms(1) by (simp add: train_email_classifier_def)
  qed
  from find_exists[of name model_names "\<lambda>n. candidate_error sk d n \<noteq> None"] assms(2) ce
  obtain n0 where f: "find (\<lambda>n. candidate_error sk d n \<noteq> None) model_names = Some n0"
    and "candidate_error sk d n0 \<noteq> None" by auto
  then obtain e0 where e0: "candidate_error sk d n0 = Some e0" by auto
  have first: "\<exists>n0 e0. find (\<lambda>n. candidate_error sk d n \<noteq> None) model_names = Some n0
            \<and> candidate_error sk d n0 = Some e0
            \<and> train_email_classifier sk w = Inl e0"
    using f e0 run[OF f e0] by blast
  have own: "train_email_classifier sk w = Inl e"
    if "\<forall>n \<in> set (takeWhile (\<lambda>n. n \<noteq> name) model_names). candidate_error sk d n = None"
  proof -
    have "find (\<lambda>n. candidate_error sk d n \<noteq> None) model_names = Some name"
      using assms(2) ce that
      by (intro find_first) auto
    then show ?thesis using ce by (rule run)
  qed
  from first own show ?thesis by blast
qed

lemma toy_load_forest_fails:
  "\<exists>d. load_and_split (toy_sklearn forest_fails) toy_world = Inr d"
  by (simp add: run_defs)

theorem C2_candidate_failure_aborts_witness:
  "\<exists>d. load_and_split (toy_sklearn forest_fails) toy_world = Inr d
     \<and> ''RandomForest'' \<in> set model_names
     \<and> estimator_fit (toy_sklearn forest_fails) ''RandomForest''
          (train_view ''RandomForest'' d) (p_y_train d) = Inl (ValueError ''fit'')
     \<and> set (takeWhile (\<lambda>n. n \<noteq> ''RandomForest'') model_names) = {}
     \<and> train_email_classifier (toy_sklearn forest_fails) toy_world = Inl (ValueError ''fit'')"
proof -
  from toy_load_forest_fails obtain d where
    ld: "load_and_split (toy_sklearn forest_fails) toy_world = Inr d" by blast
  have m: "''RandomForest'' \<in> set model_names" by (simp add: model_names_def)
  have f: "estimator_fit (toy_sklearn forest_fails) ''RandomForest''
          (train_view ''RandomForest'' d) (p_y_train d) = Inl (ValueError ''fit'')"
    by (simp add: toy_sklearn_def forest_fails_def)
  have t: "set (takeWhile (\<lambda>n. n \<noteq> ''RandomForest'') model_names) = {}"
    by (simp add: model_names_def)
  from C2_candidate_failure_aborts[OF ld m f] t
  have "train_email_classifier (toy_sklearn forest_fails) toy_world = Inl (ValueError ''fit'')"
    by simp
  with ld m f t show ?thesis by blast
qed

section \<open>The feature columns of the metadata\<close>








end
